theory Spec2Isabelle
  imports Complex_Main "HOL-Library.AList"
begin

text \<open>
  The fixed-width file node of n8n: \<open>getFields\<close> (\<open>GenericFunctions.ts\<close>), which turns the
  node's field configuration into the schema of the codec, and the part of \<open>execute\<close>
  (\<open>FixedWidthFile.node.ts\<close>) that computes the \<open>trim\<close> and \<open>pad\<close> options and builds the
  option objects given to \<open>parse\<close> and \<open>stringify\<close>. The codec itself
  (\<open>@evologi/fixed-width\<close>) is a library outside the repository and is not modelled.
\<close>

section \<open>JavaScript values\<close>

text \<open>
  The node hands \<open>getFields\<close> an \<open>IDataObject\<close>: a JSON-like tree. The TypeScript casts
  (\<open>as string\<close>, \<open>as number\<close>, \<open>as IDataObject[]\<close>) are erased at run time, so every
  position of the tree can hold any value, and the model keeps them all.
  A number is a double; only its class (finite, NaN, an infinity) and, for a finite
  one, its value are kept. A string is a list of characters.
\<close>

datatype number = Finite real | NaN | PosInfinity | NegInfinity

datatype val =
    Undefined
  | Null
  | Bool bool
  | Num number
  | Str string
  | Object "(string \<times> val) list"
  | Array "val list"

text \<open>The only exception the modelled code can throw is the runtime's \<open>TypeError\<close>.\<close>

datatype error = TypeError

text \<open>\<open>ToBoolean\<close>, as used by \<open>||\<close>, \<open>?:\<close> and \<open>Boolean(v)\<close>.\<close>

fun truthy :: "val \<Rightarrow> bool" where
  "truthy Undefined = False"
| "truthy Null = False"
| "truthy (Bool b) = b"
| "truthy (Num (Finite x)) = (x \<noteq> 0)"
| "truthy (Num NaN) = False"
| "truthy (Num PosInfinity) = True"
| "truthy (Num NegInfinity) = True"
| "truthy (Str s) = (s \<noteq> [])"
| "truthy (Object kvs) = True"
| "truthy (Array xs) = True"

text \<open>\<open>a || b\<close>\<close>

definition js_or :: "val \<Rightarrow> val \<Rightarrow> val" where
  "js_or a b = (if truthy a then a else b)"

text \<open>
  The own property \<open>k\<close> of an object given by its entries: \<open>undefined\<close> when absent.
  For a key listed twice the first entry is the object's property.
\<close>

definition lookup :: "(string \<times> val) list \<Rightarrow> string \<Rightarrow> val" where
  "lookup kvs k = (case map_of kvs k of None \<Rightarrow> Undefined | Some v \<Rightarrow> v)"

text \<open>
  The member read \<open>v.k\<close> (also the read a destructuring pattern does), for the keys the
  code reads: \<open>field\<close>, \<open>property\<close>, \<open>width\<close>, \<open>align\<close>, \<open>dataType\<close>. None of them is a
  member of a primitive's or an array's prototype, so the read gives \<open>undefined\<close> there;
  on \<open>undefined\<close> and \<open>null\<close> it throws.
\<close>

fun get :: "val \<Rightarrow> string \<Rightarrow> error + val" where
  "get Undefined k = Inl TypeError"
| "get Null k = Inl TypeError"
| "get (Object kvs) k = Inr (lookup kvs k)"
| "get v k = Inr Undefined"

section \<open>The schema: \<open>Field\<close>\<close>

text \<open>
  The four arrow functions of \<open>getFields\<close>, one constructor each:
  \<open>(v) => Number(v)\<close>, \<open>(v) => parseInt(v, 10)\<close>, \<open>(v) => parseFloat(v)\<close> and
  \<open>(v) => Boolean(v)\<close>.
\<close>

datatype cast_fn = cast_Number | cast_parseInt | cast_parseFloat | cast_Boolean

text \<open>The library's \<open>Field\<close>; \<open>cast = None\<close> is the \<open>undefined\<close> cast.\<close>

record Field =
  property :: val
  width :: val
  cast :: "cast_fn option"
  align :: val

text \<open>
  What a cast returns. The runtime's numeric conversions \<open>Number\<close>, \<open>parseInt\<close> and
  \<open>parseFloat\<close> are not code of this repository: they are taken as parameters, and what
  they return for a string is given further below. \<open>Boolean(v)\<close> is \<open>ToBoolean\<close>.
\<close>

record runtime =
  js_Number :: "val \<Rightarrow> number"
  js_parseInt :: "val \<Rightarrow> number \<Rightarrow> number"
  js_parseFloat :: "val \<Rightarrow> number"

fun apply_cast :: "runtime \<Rightarrow> cast_fn \<Rightarrow> val \<Rightarrow> val" where
  "apply_cast rt cast_Number v = Num (js_Number rt v)"
| "apply_cast rt cast_parseInt v = Num (js_parseInt rt v (Finite 10))"
| "apply_cast rt cast_parseFloat v = Num (js_parseFloat rt v)"
| "apply_cast rt cast_Boolean v = Bool (truthy v)"

section \<open>\<open>getFields\<close>\<close>

text \<open>The \<open>switch (dataType)\<close> of the parse branch; \<open>case\<close> labels compare with \<open>===\<close>.\<close>

definition select_cast :: "val \<Rightarrow> cast_fn option" where
  "select_cast dataType =
     (if dataType = Str ''number'' then Some cast_Number
      else if dataType = Str ''integer'' then Some cast_parseInt
      else if dataType = Str ''float'' then Some cast_parseFloat
      else if dataType = Str ''boolean'' then Some cast_Boolean
      else None)"

text \<open>
  The body of the arrow function given to \<open>map\<close>, after its parameter was destructured
  into \<open>property\<close>, \<open>width\<close>, \<open>alignRaw\<close> and \<open>dataType\<close>: \<open>cast\<close> and \<open>align\<close>
  start \<open>undefined\<close> and each is assigned in one branch only.
\<close>

definition build_field :: "string \<Rightarrow> val \<Rightarrow> val \<Rightarrow> val \<Rightarrow> val \<Rightarrow> Field" where
  "build_field operation prop wid alignRaw dataType =
     \<lparr>property = prop,
      width = wid,
      cast = (if operation = ''fromFile'' then select_cast dataType else None),
      align = (if operation = ''fromFile'' then Undefined
               else if operation = ''toFile'' then alignRaw
               else Undefined)\<rparr>"

text \<open>
  The arrow function itself: destructuring \<open>undefined\<close> or \<open>null\<close> throws before the body
  runs.
\<close>

definition field_of :: "string \<Rightarrow> val \<Rightarrow> error + Field" where
  "field_of operation raw =
     (case get raw ''property'' of Inl e \<Rightarrow> Inl e | Inr prop \<Rightarrow>
     (case get raw ''width'' of Inl e \<Rightarrow> Inl e | Inr wid \<Rightarrow>
     (case get raw ''align'' of Inl e \<Rightarrow> Inl e | Inr alignRaw \<Rightarrow>
     (case get raw ''dataType'' of Inl e \<Rightarrow> Inl e | Inr dataType \<Rightarrow>
        Inr (build_field operation prop wid alignRaw dataType)))))"

text \<open>\<open>Array.prototype.map\<close> with a callback that may throw: the first throw ends the loop.\<close>

fun map_fields :: "(val \<Rightarrow> error + 'a) \<Rightarrow> val list \<Rightarrow> error + 'a list" where
  "map_fields f [] = Inr []"
| "map_fields f (x # xs) =
     (case f x of Inl e \<Rightarrow> Inl e
      | Inr y \<Rightarrow> (case map_fields f xs of Inl e \<Rightarrow> Inl e | Inr ys \<Rightarrow> Inr (y # ys)))"

text \<open>
  \<open>rawFields.map\<close> exists only when \<open>rawFields\<close> is an array: on any other (truthy)
  value the call throws.
\<close>

definition getFields :: "string \<Rightarrow> val \<Rightarrow> error + Field list" where
  "getFields operation fieldConfig =
     (case get (js_or fieldConfig (Object [])) ''field'' of Inl e \<Rightarrow> Inl e
      | Inr fld \<Rightarrow>
          (case js_or fld (Array []) of
             Array rawFields \<Rightarrow> map_fields (field_of operation) rawFields
           | _ \<Rightarrow> Inl TypeError))"

section \<open>The options \<open>execute\<close> passes to the codec\<close>

text \<open>
  \<open>execute\<close> reads the node's \<open>options\<close> object (given by its entries), computes
  \<open>trim\<close> and \<open>pad\<close>, and builds the option object of each codec call with an object
  literal that spreads \<open>options\<close> first. An entry of such an object is a plain value or
  the schema.
\<close>

datatype entry = Value val | Fields "Field list"

definition trim_of :: "(string \<times> val) list \<Rightarrow> val" where
  "trim_of options =
     (let t = lookup options ''trim'' in
      if t = Str ''both'' then Bool True
      else if t = Str ''none'' then Bool False
      else if (case t of Str s \<Rightarrow> s \<in> set [''left'', ''right''] | _ \<Rightarrow> False) then t
      else Bool True)"

definition pad_of :: "(string \<times> val) list \<Rightarrow> val" where
  "pad_of options =
     (if truthy (lookup options ''pad'') then lookup options ''pad'' else Str '' '')"

definition spread :: "(string \<times> val) list \<Rightarrow> (string \<times> entry) list" where
  "spread options = map (\<lambda>(k, v). (k, Value v)) options"

text \<open>\<open>{ ...options, trim, fields }\<close>\<close>

definition parserOptions :: "(string \<times> val) list \<Rightarrow> Field list \<Rightarrow> (string \<times> entry) list" where
  "parserOptions options schema =
     AList.update ''fields'' (Fields schema)
       (AList.update ''trim'' (Value (trim_of options)) (spread options))"

text \<open>\<open>{ ...options, encoding, pad, trim, fields }\<close>\<close>

definition stringifyOptions :: "(string \<times> val) list \<Rightarrow> Field list \<Rightarrow> (string \<times> entry) list" where
  "stringifyOptions options schema =
     (let encoding = js_or (lookup options ''encoding'') (Str ''utf8'') in
      AList.update ''fields'' (Fields schema)
        (AList.update ''trim'' (Value (trim_of options))
          (AList.update ''pad'' (Value (pad_of options))
            (AList.update ''encoding'' (Value encoding) (spread options)))))"

section \<open>\<open>getFields\<close> over a store\<close>

text \<open>
  In the model above a configuration is a value, so the question whether \<open>getFields\<close>
  writes to the object it is given cannot be asked there. For that question the same
  code is modelled again with objects by reference: a value is a primitive, one of the
  four arrow functions (they capture nothing), or the address of a cell of the store; a
  cell is an object or an array. Every object literal and array literal of the code, and
  the array that \<open>map\<close> returns, is allocated at a fresh address, the next free one.
\<close>

type_synonym addr = nat

datatype rval =
    RUndefined
  | RNull
  | RBool bool
  | RNum number
  | RStr string
  | RFun cast_fn
  | Ref addr

datatype cell = ObjectCell "(string \<times> rval) list" | ArrayCell "rval list"

type_synonym store = "cell list"

definition alloc :: "cell \<Rightarrow> store \<Rightarrow> rval \<times> store" where
  "alloc c s = (Ref (length s), s @ [c])"

fun rtruthy :: "rval \<Rightarrow> bool" where
  "rtruthy RUndefined = False"
| "rtruthy RNull = False"
| "rtruthy (RBool b) = b"
| "rtruthy (RNum (Finite x)) = (x \<noteq> 0)"
| "rtruthy (RNum NaN) = False"
| "rtruthy (RNum PosInfinity) = True"
| "rtruthy (RNum NegInfinity) = True"
| "rtruthy (RStr t) = (t \<noteq> [])"
| "rtruthy (RFun f) = True"
| "rtruthy (Ref a) = True"

text \<open>
  The member read \<open>v.k\<close>, for the keys the code reads. An address beyond the store does
  not occur in a store of the runtime (see \<open>closed\<close> below); the read gives \<open>undefined\<close>
  there.
\<close>

fun rget :: "store \<Rightarrow> rval \<Rightarrow> string \<Rightarrow> error + rval" where
  "rget s RUndefined k = Inl TypeError"
| "rget s RNull k = Inl TypeError"
| "rget s (Ref a) k =
     (if a < length s then
        (case s ! a of
           ObjectCell kvs \<Rightarrow> Inr (case map_of kvs k of None \<Rightarrow> RUndefined | Some v \<Rightarrow> v)
         | ArrayCell xs \<Rightarrow> Inr RUndefined)
      else Inr RUndefined)"
| "rget s v k = Inr RUndefined"

text \<open>The elements of \<open>v\<close> when \<open>v\<close> is an array, the only kind of value with a \<open>map\<close> method.\<close>

definition array_of :: "store \<Rightarrow> rval \<Rightarrow> rval list option" where
  "array_of s v =
     (case v of
        Ref a \<Rightarrow> (if a < length s then (case s ! a of ArrayCell xs \<Rightarrow> Some xs | _ \<Rightarrow> None) else None)
      | _ \<Rightarrow> None)"

definition rselect_cast :: "rval \<Rightarrow> rval" where
  "rselect_cast dataType =
     (if dataType = RStr ''number'' then RFun cast_Number
      else if dataType = RStr ''integer'' then RFun cast_parseInt
      else if dataType = RStr ''float'' then RFun cast_parseFloat
      else if dataType = RStr ''boolean'' then RFun cast_Boolean
      else RUndefined)"

text \<open>
  The arrow function given to \<open>map\<close>, up to the object literal \<open>{property, width, cast,
  align}\<close>: it reads the entry and writes nothing.
\<close>

definition field_literal :: "string \<Rightarrow> rval \<Rightarrow> store \<Rightarrow> error + cell" where
  "field_literal operation raw s =
     (case rget s raw ''property'' of Inl e \<Rightarrow> Inl e | Inr prop \<Rightarrow>
     (case rget s raw ''width'' of Inl e \<Rightarrow> Inl e | Inr wid \<Rightarrow>
     (case rget s raw ''align'' of Inl e \<Rightarrow> Inl e | Inr alignRaw \<Rightarrow>
     (case rget s raw ''dataType'' of Inl e \<Rightarrow> Inl e | Inr dataType \<Rightarrow>
        Inr (ObjectCell
          [(''property'', prop),
           (''width'', wid),
           (''cast'', if operation = ''fromFile'' then rselect_cast dataType else RUndefined),
           (''align'', if operation = ''fromFile'' then RUndefined
                       else if operation = ''toFile'' then alignRaw
                       else RUndefined)])))))"

text \<open>The arrow function: the literal is allocated and its address returned.\<close>

definition rfield_of :: "string \<Rightarrow> rval \<Rightarrow> store \<Rightarrow> (error + rval) \<times> store" where
  "rfield_of operation raw s =
     (case field_literal operation raw s of
        Inl e \<Rightarrow> (Inl e, s)
      | Inr c \<Rightarrow> (case alloc c s of (r, s') \<Rightarrow> (Inr r, s')))"

fun rmap_fields :: "string \<Rightarrow> rval list \<Rightarrow> store \<Rightarrow> (error + rval list) \<times> store" where
  "rmap_fields operation [] s = (Inr [], s)"
| "rmap_fields operation (x # xs) s =
     (case rfield_of operation x s of
        (Inl e, s1) \<Rightarrow> (Inl e, s1)
      | (Inr r, s1) \<Rightarrow>
          (case rmap_fields operation xs s1 of
             (Inl e, s2) \<Rightarrow> (Inl e, s2)
           | (Inr rs, s2) \<Rightarrow> (Inr (r # rs), s2)))"

text \<open>
  \<open>getFields\<close>: the result and the store it leaves. \<open>{}\<close> and \<open>[]\<close> are allocated only
  when the operand before \<open>||\<close> is falsy; the array of the built fields is allocated
  last.
\<close>

definition getFields_store :: "string \<Rightarrow> rval \<Rightarrow> store \<Rightarrow> (error + rval) \<times> store" where
  "getFields_store operation fieldConfig s =
     (case (if rtruthy fieldConfig then (fieldConfig, s) else alloc (ObjectCell []) s) of (c, s1) \<Rightarrow>
     (case rget s1 c ''field'' of
        Inl e \<Rightarrow> (Inl e, s1)
      | Inr fld \<Rightarrow>
     (case (if rtruthy fld then (fld, s1) else alloc (ArrayCell []) s1) of (rawFields, s2) \<Rightarrow>
     (case array_of s2 rawFields of
        None \<Rightarrow> (Inl TypeError, s2)
      | Some xs \<Rightarrow>
     (case rmap_fields operation xs s2 of
        (Inl e, s3) \<Rightarrow> (Inl e, s3)
      | (Inr rs, s3) \<Rightarrow> (case alloc (ArrayCell rs) s3 of (r, s4) \<Rightarrow> (Inr r, s4)))))))"

text \<open>
  What a caller sees of a result: the error, or the cells of the fields of the returned
  array, in order.
\<close>

definition deref :: "store \<Rightarrow> rval \<Rightarrow> cell option" where
  "deref s v = (case v of Ref a \<Rightarrow> (if a < length s then Some (s ! a) else None) | _ \<Rightarrow> None)"

definition schema_at :: "store \<Rightarrow> error + rval \<Rightarrow> error + cell option list" where
  "schema_at s r =
     (case r of
        Inl e \<Rightarrow> Inl e
      | Inr v \<Rightarrow> (case array_of s v of None \<Rightarrow> Inr [] | Some rs \<Rightarrow> Inr (map (deref s) rs)))"

text \<open>A store of the runtime has no dangling address: every address in it is allocated.\<close>

definition rval_ok :: "nat \<Rightarrow> rval \<Rightarrow> bool" where
  "rval_ok n v = (case v of Ref a \<Rightarrow> a < n | _ \<Rightarrow> True)"

definition cell_ok :: "nat \<Rightarrow> cell \<Rightarrow> bool" where
  "cell_ok n c =
     (case c of
        ObjectCell kvs \<Rightarrow> list_all (\<lambda>kv. rval_ok n (snd kv)) kvs
      | ArrayCell xs \<Rightarrow> list_all (rval_ok n) xs)"

definition closed :: "store \<Rightarrow> bool" where
  "closed s = list_all (cell_ok (length s)) s"

text \<open>
  For the proofs: the field literals the loop of \<open>map\<close> builds from the entries \<open>xs\<close>
  read in the store \<open>s\<close>, up to the first entry that throws, and that error if any.
\<close>

fun built :: "string \<Rightarrow> rval list \<Rightarrow> store \<Rightarrow> cell list \<times> error option" where
  "built operation [] s = ([], None)"
| "built operation (x # xs) s =
     (case field_literal operation x s of
        Inl e \<Rightarrow> ([], Some e)
      | Inr c \<Rightarrow> (case built operation xs s of (cs, e) \<Rightarrow> (c # cs, e)))"

text \<open>
  For the proofs: what \<open>getFields\<close> computes from the store \<open>s\<close>, without the addresses
  it allocates: the error, or the field literals in order.
\<close>

definition outcome :: "string \<Rightarrow> rval \<Rightarrow> store \<Rightarrow> error + cell list" where
  "outcome operation fieldConfig s =
     (if \<not> rtruthy fieldConfig then Inr []
      else
        (case rget s fieldConfig ''field'' of
           Inl e \<Rightarrow> Inl e
         | Inr fld \<Rightarrow>
             (if \<not> rtruthy fld then Inr []
              else
                (case array_of s fld of
                   None \<Rightarrow> Inl TypeError
                 | Some xs \<Rightarrow>
                     (case built operation xs s of
                        (cs, None) \<Rightarrow> Inr cs
                      | (cs, Some e) \<Rightarrow> Inl e)))))"

text \<open>
  The two models are related by reading a value of the store as a tree: an address is
  replaced by the contents of its cell, down to depth \<open>d\<close>; below that depth, and for a
  function, an object without entries stands in.
\<close>

fun abs_val :: "nat \<Rightarrow> store \<Rightarrow> rval \<Rightarrow> val" where
  "abs_val d s RUndefined = Undefined"
| "abs_val d s RNull = Null"
| "abs_val d s (RBool b) = Bool b"
| "abs_val d s (RNum x) = Num x"
| "abs_val d s (RStr t) = Str t"
| "abs_val d s (RFun f) = Object []"
| "abs_val 0 s (Ref a) = Object []"
| "abs_val (Suc d) s (Ref a) =
     (if a < length s then
        (case s ! a of
           ObjectCell kvs \<Rightarrow> Object (map (\<lambda>kv. (fst kv, abs_val d s (snd kv))) kvs)
         | ArrayCell xs \<Rightarrow> Array (map (abs_val d s) xs))
      else Object [])"

text \<open>A field literal read as a \<open>Field\<close>, its values as trees of depth \<open>d\<close>.\<close>

definition field_of_cell :: "nat \<Rightarrow> store \<Rightarrow> cell \<Rightarrow> Field" where
  "field_of_cell d s c =
     (let kvs = (case c of ObjectCell kvs \<Rightarrow> kvs | ArrayCell xs \<Rightarrow> []);
          member = (\<lambda>k. case map_of kvs k of None \<Rightarrow> RUndefined | Some v \<Rightarrow> v)
      in \<lparr>property = abs_val d s (member ''property''),
          width = abs_val d s (member ''width''),
          cast = (case member ''cast'' of RFun f \<Rightarrow> Some f | _ \<Rightarrow> None),
          align = abs_val d s (member ''align'')\<rparr>)"

section \<open>The numeric conversions of the runtime, on strings\<close>

text \<open>
  What \<open>Number\<close>, \<open>parseInt\<close> with radix 10 and \<open>parseFloat\<close> return for a string, after
  the grammar of the language standard (\<open>StringToNumber\<close>, \<open>parseInt\<close>, \<open>parseFloat\<close> and
  \<open>StrDecimalLiteral\<close>). A character is a code unit below 256. For the result of a
  conversion \<open>Finite x\<close> is the finite double nearest to \<open>x\<close>: the digits are not rounded
  here, only a value beyond the range of the doubles becomes an infinity.
\<close>

text \<open>
  White space and line terminators: TAB, LF, VT, FF, CR, SP and NBSP.
\<close>

definition is_space :: "char \<Rightarrow> bool" where
  "is_space c = (of_char c \<in> {9, 10, 11, 12, 13, 32, 160 :: nat})"

text \<open>
  The value of a digit \<open>0\<close>-\<open>9\<close>, \<open>a\<close>-\<open>f\<close> or \<open>A\<close>-\<open>F\<close>, the digits of a radix and the
  value of a text of digits.
\<close>

definition digit_of :: "char \<Rightarrow> nat option" where
  "digit_of c =
     (let n = of_char c :: nat in
      if 48 \<le> n \<and> n \<le> 57 then Some (n - 48)
      else if 97 \<le> n \<and> n \<le> 102 then Some (n - 87)
      else if 65 \<le> n \<and> n \<le> 70 then Some (n - 55)
      else None)"

definition is_digit :: "nat \<Rightarrow> char \<Rightarrow> bool" where
  "is_digit r c = (case digit_of c of None \<Rightarrow> False | Some d \<Rightarrow> d < r)"

definition digits_val :: "nat \<Rightarrow> string \<Rightarrow> nat" where
  "digits_val r ds = foldl (\<lambda>n c. r * n + (case digit_of c of None \<Rightarrow> 0 | Some d \<Rightarrow> d)) 0 ds"

text \<open>
  The largest double is \<open>2 ^ 1024 - 2 ^ 971\<close>; from half a step above it on, a value
  rounds to an infinity.
\<close>

definition to_double :: "real \<Rightarrow> number" where
  "to_double x =
     (if 2 ^ 1024 - 2 ^ 970 \<le> x then PosInfinity
      else if x \<le> - (2 ^ 1024 - 2 ^ 970) then NegInfinity
      else Finite x)"

fun negate :: "number \<Rightarrow> number" where
  "negate (Finite x) = Finite (- x)"
| "negate NaN = NaN"
| "negate PosInfinity = NegInfinity"
| "negate NegInfinity = PosInfinity"

text \<open>
  An optional sign at the front: whether it is \<open>-\<close>, and the text after it.
\<close>

definition strip_sign :: "string \<Rightarrow> bool \<times> string" where
  "strip_sign s =
     (case s of
        [] \<Rightarrow> (False, [])
      | c # t \<Rightarrow> if c = CHR ''-'' then (True, t) else if c = CHR ''+'' then (False, t) else (False, s))"

definition with_sign :: "bool \<Rightarrow> number \<Rightarrow> number" where
  "with_sign neg n = (if neg then negate n else n)"

text \<open>
  \<open>parseInt(v, 10)\<close>: leading white space is skipped, a sign is read, and the digits that
  follow are the number; whatever comes after them is ignored. Without a digit the
  result is NaN.
\<close>

definition parseInt_string :: "string \<Rightarrow> number" where
  "parseInt_string v =
     (case strip_sign (dropWhile is_space v) of (neg, s) \<Rightarrow>
      (let z = takeWhile (is_digit 10) s in
       if z = [] then NaN else with_sign neg (to_double (real (digits_val 10 z)))))"

text \<open>
  An exponent part \<open>e\<close> or \<open>E\<close>, optional sign, digits, at the front of \<open>s\<close>: its value
  and the text after it. Without digits there is no exponent part.
\<close>

definition exponent_part :: "string \<Rightarrow> int \<times> string" where
  "exponent_part s =
     (case s of
        [] \<Rightarrow> (0, s)
      | c # t \<Rightarrow>
          if c = CHR ''e'' \<or> c = CHR ''E'' then
            (case strip_sign t of (neg, u) \<Rightarrow>
             (let ed = takeWhile (is_digit 10) u in
              if ed = [] then (0, s)
              else ((if neg then - int (digits_val 10 ed) else int (digits_val 10 ed)),
                    dropWhile (is_digit 10) u)))
          else (0, s))"

definition scale10 :: "real \<Rightarrow> int \<Rightarrow> real" where
  "scale10 m e = (if 0 \<le> e then m * 10 ^ nat e else m / 10 ^ nat (- e))"

text \<open>
  The longest prefix of \<open>s\<close> that is an unsigned decimal literal (\<open>Infinity\<close>, or digits
  with an optional fraction and exponent part, or a fraction that starts with the dot),
  its value and the text after it; \<open>None\<close> when no prefix is one.
\<close>

definition unsigned_decimal :: "string \<Rightarrow> (number \<times> string) option" where
  "unsigned_decimal s =
     (if take 8 s = ''Infinity'' then Some (PosInfinity, drop 8 s)
      else
        (let ip = takeWhile (is_digit 10) s; r1 = dropWhile (is_digit 10) s;
             (fp, r2) =
               (case r1 of
                  [] \<Rightarrow> ([], r1)
                | c # t \<Rightarrow>
                    if c = CHR ''.'' \<and> (ip \<noteq> [] \<or> takeWhile (is_digit 10) t \<noteq> [])
                    then (takeWhile (is_digit 10) t, dropWhile (is_digit 10) t)
                    else ([], r1))
         in if ip = [] \<and> fp = [] then None
            else
              (case exponent_part r2 of (e, r3) \<Rightarrow>
                 Some (to_double (scale10 (real (digits_val 10 (ip @ fp))) (e - int (length fp))), r3))))"

text \<open>
  \<open>parseFloat(v)\<close>: leading white space is skipped and the longest signed decimal
  literal at the front is the number; without one the result is NaN.
\<close>

definition parseFloat_string :: "string \<Rightarrow> number" where
  "parseFloat_string v =
     (case strip_sign (dropWhile is_space v) of (neg, s) \<Rightarrow>
      (case unsigned_decimal s of None \<Rightarrow> NaN | Some (n, rest) \<Rightarrow> with_sign neg n))"

text \<open>
  A binary, octal or hexadecimal integer literal: \<open>0b\<close>, \<open>0o\<close> or \<open>0x\<close> and at least one
  digit of the radix, nothing else, no sign.
\<close>

definition non_decimal :: "string \<Rightarrow> number option" where
  "non_decimal s =
     (case s of
        z # x # ds \<Rightarrow>
          (let r = (if x = CHR ''x'' \<or> x = CHR ''X'' then 16
                    else if x = CHR ''o'' \<or> x = CHR ''O'' then 8
                    else if x = CHR ''b'' \<or> x = CHR ''B'' then 2
                    else (0 :: nat))
           in if z = CHR ''0'' \<and> r \<noteq> 0 \<and> ds \<noteq> [] \<and> list_all (is_digit r) ds
              then Some (to_double (real (digits_val r ds)))
              else None)
      | _ \<Rightarrow> None)"

definition trim_space :: "string \<Rightarrow> string" where
  "trim_space v = rev (dropWhile is_space (rev (dropWhile is_space v)))"

text \<open>
  \<open>Number(v)\<close>: white space is trimmed at both ends; the empty text is 0; otherwise the
  whole text has to be a numeric literal, and is NaN when it is not.
\<close>

definition Number_string :: "string \<Rightarrow> number" where
  "Number_string v =
     (let t = trim_space v in
      if t = [] then Finite 0
      else
        (case non_decimal t of
           Some n \<Rightarrow> n
         | None \<Rightarrow>
             (case strip_sign t of (neg, s) \<Rightarrow>
              (case unsigned_decimal s of
                 Some (n, []) \<Rightarrow> with_sign neg n
               | _ \<Rightarrow> NaN))))"

definition numeric_literal :: "string \<Rightarrow> bool" where
  "numeric_literal t =
     (non_decimal t \<noteq> None \<or>
      (case unsigned_decimal (snd (strip_sign t)) of Some (n, []) \<Rightarrow> True | _ \<Rightarrow> False))"

text \<open>
  A runtime whose three conversions are these on strings, and one such runtime. The
  parser gives a cast a string; what the conversions return for other arguments is
  not modelled (the runtime below returns NaN there), and no statement depends on it.
\<close>

definition ecmascript_on_strings :: "runtime \<Rightarrow> bool" where
  "ecmascript_on_strings rt =
     (\<forall>v. js_Number rt (Str v) = Number_string v
        \<and> js_parseInt rt (Str v) (Finite 10) = parseInt_string v
        \<and> js_parseFloat rt (Str v) = parseFloat_string v)"

definition string_runtime :: runtime where
  "string_runtime =
     \<lparr>js_Number = (\<lambda>v. case v of Str t \<Rightarrow> Number_string t | _ \<Rightarrow> NaN),
      js_parseInt = (\<lambda>v radix. case v of Str t \<Rightarrow> parseInt_string t | _ \<Rightarrow> NaN),
      js_parseFloat = (\<lambda>v. case v of Str t \<Rightarrow> parseFloat_string t | _ \<Rightarrow> NaN)\<rparr>"

section \<open>Facts about the building blocks\<close>

lemma field_of_Object:
  "field_of operation (Object r) =
     Inr (build_field operation (lookup r ''property'') (lookup r ''width'')
            (lookup r ''align'') (lookup r ''dataType''))"
  by (simp add: field_of_def)

lemma map_fields_total:
  "(\<And>x. x \<in> set xs \<Longrightarrow> f x = Inr (g x)) \<Longrightarrow> map_fields f xs = Inr (map g xs)"
  by (induction xs) simp_all

lemma map_fields_Inr:
  "map_fields f xs = Inr ys \<Longrightarrow> y \<in> set ys \<Longrightarrow> \<exists>x \<in> set xs. f x = Inr y"
proof (induction xs arbitrary: ys)
  case Nil
  then show ?case by simp
next
  case (Cons x xs)
  then show ?case
    by (auto split: sum.splits)
qed

lemma field_of_Inr:
  "field_of operation raw = Inr f \<Longrightarrow>
     \<exists>p w a d. f = build_field operation p w a d"
  by (auto simp: field_of_def split: sum.splits)

lemma getFields_objects:
  assumes "lookup cfg ''field'' = Array (map Object raws)"
  shows "getFields operation (Object cfg) =
           Inr (map (\<lambda>r. build_field operation (lookup r ''property'') (lookup r ''width'')
                            (lookup r ''align'') (lookup r ''dataType'')) raws)"
proof -
  have "map_fields (field_of operation) (map Object raws) =
          Inr (map ((\<lambda>r. build_field operation (lookup r ''property'') (lookup r ''width'')
                            (lookup r ''align'') (lookup r ''dataType'')) \<circ> (\<lambda>v. case v of Object r \<Rightarrow> r | _ \<Rightarrow> []))
                 (map Object raws))"
    by (rule map_fields_total) (auto simp: field_of_Object)
  then show ?thesis
    using assms by (simp add: getFields_def js_or_def comp_def)
qed

lemma getFields_Inr_built:
  assumes "getFields operation fieldConfig = Inr fs" and "f \<in> set fs"
  shows "\<exists>p w a d. f = build_field operation p w a d"
proof -
  from assms(1) obtain raws where "map_fields (field_of operation) raws = Inr fs"
    by (auto simp: getFields_def split: sum.splits val.splits)
  with assms(2) obtain raw where "field_of operation raw = Inr f"
    by (blast dest: map_fields_Inr)
  then show ?thesis by (rule field_of_Inr)
qed

text \<open>
  The parse path spreads \<open>options\<close> and overrides only \<open>trim\<close> and \<open>fields\<close>: the \<open>pad\<close>
  option reaches \<open>parse\<close> as configured.
\<close>

lemma map_of_spread:
  "map_of (spread options) k = map_option Value (map_of options k)"
  by (induction options) (auto simp: spread_def)

lemma parserOptions_pad:
  "map_of (parserOptions options schema) ''pad'' = map_option Value (map_of options ''pad'')"
  by (simp add: parserOptions_def update_conv' map_of_spread)

text \<open>
  Three facts at the edge of the claims below: a \<open>field\<close> that is present and truthy but
  not an array makes \<open>rawFields.map\<close> throw; the numeric casts are the runtime's
  conversions and nothing else; the Boolean cast does not trim.
\<close>

lemma getFields_not_an_array:
  "getFields operation (Object [(''field'', Str ''x'')]) = Inl TypeError"
  by (simp add: getFields_def js_or_def lookup_def)

lemma numeric_casts_are_runtime_conversions:
  "apply_cast rt cast_Number v = Num (js_Number rt v)
   \<and> apply_cast rt cast_parseInt v = Num (js_parseInt rt v (Finite 10))
   \<and> apply_cast rt cast_parseFloat v = Num (js_parseFloat rt v)"
  by simp

lemma Boolean_cast_blank:
  "apply_cast rt cast_Boolean (Str ''  '') = Bool True"
  by simp

section \<open>Schema construction does not validate\<close>

text \<open>
  C1, the claim as stated: a configuration with a field of negative width or of empty
  property path makes \<open>getFields\<close> fail. It does not: the entry
  \<open>{property: '', width: -1}\<close> has both faults and \<open>getFields\<close> returns the schema that
  holds it.
\<close>

theorem getFields_invalid_field_counterexample:
  "getFields ''fromFile''
     (Object [(''field'', Array [Object [(''property'', Str ''''), (''width'', Num (Finite (- 1)))]])])
   = Inr [\<lparr>property = Str '''', width = Num (Finite (- 1)), cast = None, align = Undefined\<rparr>]"
  by (simp add: getFields_def js_or_def field_of_def build_field_def lookup_def select_cast_def)

text \<open>
  C1, as amended: \<open>getFields\<close> checks neither width nor property path. For every
  configuration whose \<open>field\<close> array holds an entry with a negative width, or with an
  empty or missing property path, and for every operation, it raises no error and
  returns a schema, one of whose fields carries that entry's width and property
  unchanged.
\<close>

theorem getFields_keeps_invalid_field:
  assumes "lookup cfg ''field'' = Array (map Object raws)"
    and "r \<in> set raws"
    and "(\<exists>x. lookup r ''width'' = Num (Finite x) \<and> x < 0)
         \<or> lookup r ''property'' = Str [] \<or> map_of r ''property'' = None"
  shows "\<exists>fs. getFields operation (Object cfg) = Inr fs \<and>
           (\<exists>f \<in> set fs. width f = lookup r ''width'' \<and> property f = lookup r ''property'')"
proof -
  let ?g = "\<lambda>r. build_field operation (lookup r ''property'') (lookup r ''width'')
                   (lookup r ''align'') (lookup r ''dataType'')"
  have "getFields operation (Object cfg) = Inr (map ?g raws)"
    using assms(1) by (rule getFields_objects)
  moreover have "?g r \<in> set (map ?g raws)"
    using assms(2) by simp
  moreover have "width (?g r) = lookup r ''width'' \<and> property (?g r) = lookup r ''property''"
    by (simp add: build_field_def)
  ultimately show ?thesis by blast
qed

text \<open>C1, a witness: the entry \<open>{property: '', width: -1}\<close> in parse mode.\<close>

theorem getFields_keeps_invalid_field_witness:
  "lookup [(''field'', Array [Object [(''property'', Str ''''), (''width'', Num (Finite (- 1)))]])] ''field''
     = Array (map Object [[(''property'', Str ''''), (''width'', Num (Finite (- 1)))]])
   \<and> lookup [(''property'', Str ''''), (''width'', Num (Finite (- 1)))] ''width'' = Num (Finite (- 1))
   \<and> (- 1 :: real) < 0
   \<and> (\<exists>fs. getFields ''fromFile''
              (Object [(''field'', Array [Object [(''property'', Str ''''), (''width'', Num (Finite (- 1)))]])])
            = Inr fs \<and>
          (\<exists>f. f \<in> set fs \<and> width f = Num (Finite (- 1)) \<and> property f = Str ''''))"
proof -
  let ?r = "[(''property'', Str ''''), (''width'', Num (Finite (- 1)))]"
  let ?cfg = "[(''field'', Array [Object ?r])]"
  have h1: "lookup ?cfg ''field'' = Array (map Object [?r])"
    by (simp add: lookup_def)
  have h2: "?r \<in> set [?r]" by simp
  have h3: "(\<exists>x. lookup ?r ''width'' = Num (Finite x) \<and> x < 0)
         \<or> lookup ?r ''property'' = Str [] \<or> map_of ?r ''property'' = None"
    by (simp add: lookup_def)
  show ?thesis
    using getFields_keeps_invalid_field [OF h1 h2 h3, of "''fromFile''"]
    by (simp add: lookup_def Bex_def)
qed

section \<open>Alignment and cast of a built field\<close>

text \<open>
  C2, the claim as stated: in stringify mode a field whose alignment is unspecified is
  built with alignment Left. It is not: for the entry \<open>{property: 'id', width: 4}\<close> the
  built field's \<open>align\<close> is \<open>undefined\<close>.
\<close>

theorem getFields_default_align_counterexample:
  "getFields ''toFile''
     (Object [(''field'', Array [Object [(''property'', Str ''id''), (''width'', Num (Finite 4))]])])
   = Inr [\<lparr>property = Str ''id'', width = Num (Finite 4), cast = None, align = Undefined\<rparr>]
   \<and> Undefined \<noteq> Str ''left''"
  by (simp add: getFields_def js_or_def field_of_def build_field_def lookup_def)

text \<open>
  C2, as amended: in stringify mode (\<open>toFile\<close>) every built field's alignment is its
  entry's \<open>align\<close> value unchanged, so \<open>undefined\<close> when the entry gives none:
  \<open>getFields\<close> supplies no default. In parse mode (\<open>fromFile\<close>) every built field's cast
  is selected by its entry's \<open>dataType\<close>: \<open>number\<close> gives \<open>Number\<close>, \<open>integer\<close> gives
  \<open>parseInt\<close> in base 10, \<open>float\<close> gives \<open>parseFloat\<close>, \<open>boolean\<close> gives \<open>Boolean\<close>, and
  every other \<open>dataType\<close> gives no cast.
\<close>

theorem getFields_align_and_cast:
  assumes "lookup cfg ''field'' = Array (map Object raws)"
  shows "(\<exists>fs. getFields ''toFile'' (Object cfg) = Inr fs \<and> length fs = length raws \<and>
            (\<forall>i<length raws. align (fs ! i) = lookup (raws ! i) ''align'' \<and>
               (map_of (raws ! i) ''align'' = None \<longrightarrow> align (fs ! i) = Undefined)))
       \<and> (\<exists>fs. getFields ''fromFile'' (Object cfg) = Inr fs \<and> length fs = length raws \<and>
            (\<forall>i<length raws. cast (fs ! i) = select_cast (lookup (raws ! i) ''dataType'')))
       \<and> select_cast (Str ''number'') = Some cast_Number
       \<and> select_cast (Str ''integer'') = Some cast_parseInt
       \<and> select_cast (Str ''float'') = Some cast_parseFloat
       \<and> select_cast (Str ''boolean'') = Some cast_Boolean
       \<and> (d \<notin> {Str ''number'', Str ''integer'', Str ''float'', Str ''boolean''}
            \<longrightarrow> select_cast d = None)"
proof -
  have "\<exists>fs. getFields ''toFile'' (Object cfg) = Inr fs \<and> length fs = length raws \<and>
            (\<forall>i<length raws. align (fs ! i) = lookup (raws ! i) ''align'' \<and>
               (map_of (raws ! i) ''align'' = None \<longrightarrow> align (fs ! i) = Undefined))"
    by (simp add: getFields_objects [OF assms] build_field_def lookup_def)
  moreover have "\<exists>fs. getFields ''fromFile'' (Object cfg) = Inr fs \<and> length fs = length raws \<and>
            (\<forall>i<length raws. cast (fs ! i) = select_cast (lookup (raws ! i) ''dataType''))"
    by (simp add: getFields_objects [OF assms] build_field_def)
  moreover have "select_cast (Str ''number'') = Some cast_Number
       \<and> select_cast (Str ''integer'') = Some cast_parseInt
       \<and> select_cast (Str ''float'') = Some cast_parseFloat
       \<and> select_cast (Str ''boolean'') = Some cast_Boolean
       \<and> (d \<notin> {Str ''number'', Str ''integer'', Str ''float'', Str ''boolean''}
            \<longrightarrow> select_cast d = None)"
    by (simp add: select_cast_def)
  ultimately show ?thesis by blast
qed

text \<open>
  C2, a witness: the entries \<open>{property: 'id', width: 4, align: 'right', dataType:
  'integer'}\<close> and \<open>{property: 'name', width: 6, dataType: 'string'}\<close>.
\<close>

theorem getFields_align_and_cast_witness:
  "lookup [(''field'', Array
       [Object [(''property'', Str ''id''), (''width'', Num (Finite 4)), (''align'', Str ''right''),
                (''dataType'', Str ''integer'')],
        Object [(''property'', Str ''name''), (''width'', Num (Finite 6)),
                (''dataType'', Str ''string'')]])] ''field''
     = Array (map Object
       [[(''property'', Str ''id''), (''width'', Num (Finite 4)), (''align'', Str ''right''),
         (''dataType'', Str ''integer'')],
        [(''property'', Str ''name''), (''width'', Num (Finite 6)), (''dataType'', Str ''string'')]])
   \<and> (\<exists>fs. getFields ''toFile'' (Object [(''field'', Array
       [Object [(''property'', Str ''id''), (''width'', Num (Finite 4)), (''align'', Str ''right''),
                (''dataType'', Str ''integer'')],
        Object [(''property'', Str ''name''), (''width'', Num (Finite 6)),
                (''dataType'', Str ''string'')]])]) = Inr fs
        \<and> align (fs ! 0) = Str ''right'' \<and> align (fs ! 1) = Undefined)
   \<and> (\<exists>fs. getFields ''fromFile'' (Object [(''field'', Array
       [Object [(''property'', Str ''id''), (''width'', Num (Finite 4)), (''align'', Str ''right''),
                (''dataType'', Str ''integer'')],
        Object [(''property'', Str ''name''), (''width'', Num (Finite 6)),
                (''dataType'', Str ''string'')]])]) = Inr fs
        \<and> cast (fs ! 0) = Some cast_parseInt \<and> cast (fs ! 1) = None)
   \<and> Str ''string'' \<notin> {Str ''number'', Str ''integer'', Str ''float'', Str ''boolean''}
   \<and> select_cast (Str ''string'') = None"
proof -
  let ?r1 = "[(''property'', Str ''id''), (''width'', Num (Finite 4)), (''align'', Str ''right''),
              (''dataType'', Str ''integer'')]"
  let ?r2 = "[(''property'', Str ''name''), (''width'', Num (Finite 6)), (''dataType'', Str ''string'')]"
  let ?cfg = "[(''field'', Array [Object ?r1, Object ?r2])]"
  have h: "lookup ?cfg ''field'' = Array (map Object [?r1, ?r2])"
    by (simp add: lookup_def)
  have "\<exists>fs. getFields ''toFile'' (Object ?cfg) = Inr fs
        \<and> align (fs ! 0) = Str ''right'' \<and> align (fs ! 1) = Undefined"
    using getFields_align_and_cast [OF h, of "Str ''string''"]
    by (auto simp: lookup_def)
  moreover have "\<exists>fs. getFields ''fromFile'' (Object ?cfg) = Inr fs
        \<and> cast (fs ! 0) = Some cast_parseInt \<and> cast (fs ! 1) = None"
    using getFields_align_and_cast [OF h, of "Str ''string''"]
    by (auto simp: lookup_def select_cast_def)
  moreover have "select_cast (Str ''string'') = None"
    using getFields_align_and_cast [OF h, of "Str ''string''"]
    by simp
  ultimately show ?thesis
    using h by simp
qed

section \<open>The Boolean cast\<close>

text \<open>
  C3: the cast attached in parse mode to a field of \<open>dataType\<close> \<open>boolean\<close> is
  \<open>(v) => Boolean(v)\<close>; for every string \<open>v\<close> it gives to the cast, the result is \<open>true\<close>
  if and only if \<open>v\<close> is not empty, and \<open>false\<close> for the empty string. The parser trims
  the text before it calls the cast; the cast itself removes nothing.
\<close>

theorem Boolean_cast_nonempty:
  "cast (build_field ''fromFile'' p w a (Str ''boolean'')) = Some cast_Boolean
   \<and> (apply_cast rt cast_Boolean (Str v) = Bool True \<longleftrightarrow> v \<noteq> [])
   \<and> apply_cast rt cast_Boolean (Str []) = Bool False"
  by (simp add: build_field_def select_cast_def)

text \<open>C3, a witness: the strings \<open>'Y'\<close> and \<open>''\<close>.\<close>

theorem Boolean_cast_nonempty_witness:
  "cast (build_field ''fromFile'' (Str ''active'') (Num (Finite 1)) Undefined (Str ''boolean''))
     = Some cast_Boolean
   \<and> apply_cast \<lparr>js_Number = \<lambda>v. NaN, js_parseInt = \<lambda>v radix. NaN, js_parseFloat = \<lambda>v. NaN\<rparr>
        cast_Boolean (Str ''Y'') = Bool True
   \<and> apply_cast \<lparr>js_Number = \<lambda>v. NaN, js_parseInt = \<lambda>v radix. NaN, js_parseFloat = \<lambda>v. NaN\<rparr>
        cast_Boolean (Str '''') = Bool False"
  using Boolean_cast_nonempty
    [of "Str ''active''" "Num (Finite 1)" Undefined
        "\<lparr>js_Number = \<lambda>v. NaN, js_parseInt = \<lambda>v radix. NaN, js_parseFloat = \<lambda>v. NaN\<rparr>" "''Y''"]
  by simp

section \<open>The numeric casts\<close>

text \<open>
  When each conversion returns NaN: no result of a successful conversion is NaN, so NaN
  marks exactly the strings in which the conversion finds no number.
\<close>

lemma string_runtime_ecmascript: "ecmascript_on_strings string_runtime"
  by (simp add: ecmascript_on_strings_def string_runtime_def)

lemma to_double_not_NaN: "to_double x \<noteq> NaN"
  by (simp add: to_double_def)

lemma with_sign_NaN: "with_sign neg n = NaN \<longleftrightarrow> n = NaN"
  by (cases n) (simp_all add: with_sign_def)

lemma digit_not_space: "is_digit r c \<Longrightarrow> \<not> is_space c"
  by (auto simp: is_digit_def is_space_def digit_of_def Let_def split: if_splits option.splits)

lemma digit_not_sign: "is_digit 10 c \<Longrightarrow> c \<noteq> CHR ''-'' \<and> c \<noteq> CHR ''+'' \<and> c \<noteq> CHR ''.''"
  by (auto simp: is_digit_def digit_of_def Let_def split: if_splits)

lemma sign_not_space: "\<not> is_space CHR ''-''" "\<not> is_space CHR ''+''" "\<not> is_space CHR ''.''"
  "\<not> is_space CHR ''I''"
  by (simp_all add: is_space_def)

lemma strip_sign_cases:
  "strip_sign s = (neg, t) \<Longrightarrow>
     (s = t \<and> \<not> neg \<and> (t = [] \<or> (hd t \<noteq> CHR ''-'' \<and> hd t \<noteq> CHR ''+'')))
     \<or> (s = CHR ''+'' # t \<and> \<not> neg) \<or> (s = CHR ''-'' # t \<and> neg)"
  by (auto simp: strip_sign_def split: list.splits if_splits)

lemma strip_sign_here:
  "sg \<in> {[], ''+'', ''-''} \<Longrightarrow> c \<noteq> CHR ''-'' \<Longrightarrow> c \<noteq> CHR ''+'' \<Longrightarrow>
     strip_sign (sg @ c # t) = (sg = ''-'', c # t)"
  by (auto simp: strip_sign_def)

lemma dropWhile_space_here:
  "list_all is_space ws \<Longrightarrow> \<not> is_space c \<Longrightarrow> dropWhile is_space (ws @ c # t) = c # t"
  by (induction ws) simp_all

lemma split_space:
  "\<exists>ws. v = ws @ dropWhile is_space v \<and> list_all is_space ws"
proof
  show "v = takeWhile is_space v @ dropWhile is_space v \<and> list_all is_space (takeWhile is_space v)"
    by (auto simp: list_all_iff dest: set_takeWhileD)
qed

text \<open>The texts that start, after white space and an optional sign, with a text that \<open>P\<close> admits.\<close>

lemma signed_prefix_iff:
  assumes body: "\<And>s. P s \<Longrightarrow> s \<noteq> [] \<and> \<not> is_space (hd s) \<and> hd s \<noteq> CHR ''-'' \<and> hd s \<noteq> CHR ''+''"
  shows "P (snd (strip_sign (dropWhile is_space v)))
     \<longleftrightarrow> (\<exists>ws sg s. v = ws @ sg @ s \<and> list_all is_space ws \<and> sg \<in> {[], ''+'', ''-''} \<and> P s)"
proof
  assume p: "P (snd (strip_sign (dropWhile is_space v)))"
  obtain neg t where st: "strip_sign (dropWhile is_space v) = (neg, t)"
    by (cases "strip_sign (dropWhile is_space v)")
  from strip_sign_cases [OF st] obtain sg where "dropWhile is_space v = sg @ t" "sg \<in> {[], ''+'', ''-''}"
    by auto
  moreover obtain ws where "v = ws @ dropWhile is_space v" "list_all is_space ws"
    using split_space by blast
  ultimately have "v = ws @ sg @ t \<and> list_all is_space ws \<and> sg \<in> {[], ''+'', ''-''} \<and> P t"
    using p st by simp
  then show "\<exists>ws sg s. v = ws @ sg @ s \<and> list_all is_space ws \<and> sg \<in> {[], ''+'', ''-''} \<and> P s"
    by blast
next
  assume "\<exists>ws sg s. v = ws @ sg @ s \<and> list_all is_space ws \<and> sg \<in> {[], ''+'', ''-''} \<and> P s"
  then obtain ws sg s where v: "v = ws @ sg @ s" and ws: "list_all is_space ws"
    and sg: "sg \<in> {[], ''+'', ''-''}" and p: "P s"
    by blast
  from body [OF p] obtain c t where s: "s = c # t" and c: "\<not> is_space c" "c \<noteq> CHR ''-''" "c \<noteq> CHR ''+''"
    by (cases s) auto
  have "dropWhile is_space v = sg @ c # t"
  proof (cases "sg = []")
    case True
    then show ?thesis using v s ws c(1) by (simp add: dropWhile_space_here)
  next
    case False
    then obtain g where g: "sg = [g]" "\<not> is_space g"
      using sg sign_not_space by auto
    then show ?thesis
      using v s ws dropWhile_space_here [OF ws g(2), of "c # t"] by simp
  qed
  then have "strip_sign (dropWhile is_space v) = (sg = ''-'', s)"
    using strip_sign_here [OF sg c(2,3)] s by simp
  then show "P (snd (strip_sign (dropWhile is_space v)))"
    using p by simp
qed

lemma parseInt_string_NaN:
  "parseInt_string v = NaN \<longleftrightarrow> \<not> (\<exists>d r. snd (strip_sign (dropWhile is_space v)) = d # r \<and> is_digit 10 d)"
proof -
  obtain neg s where st: "strip_sign (dropWhile is_space v) = (neg, s)"
    by (cases "strip_sign (dropWhile is_space v)")
  have "takeWhile (is_digit 10) s = [] \<longleftrightarrow> \<not> (\<exists>d r. s = d # r \<and> is_digit 10 d)"
    by (cases s) auto
  then show ?thesis
    using st by (simp add: parseInt_string_def Let_def with_sign_NaN to_double_not_NaN)
qed

lemma unsigned_decimal_None:
  "unsigned_decimal s = None \<longleftrightarrow>
     \<not> (take 8 s = ''Infinity'' \<or> (\<exists>d r. s = d # r \<and> is_digit 10 d)
        \<or> (\<exists>d r. s = CHR ''.'' # d # r \<and> is_digit 10 d))"
proof (cases "take 8 s = ''Infinity''")
  case True
  then show ?thesis by (simp add: unsigned_decimal_def)
next
  case False
  show ?thesis
  proof (cases s)
    case Nil
    then show ?thesis by (simp add: unsigned_decimal_def)
  next
    case (Cons c t)
    show ?thesis
    proof (cases "is_digit 10 c")
      case True
      then show ?thesis
        using False Cons by (auto simp: unsigned_decimal_def Let_def split: prod.splits list.splits)
    next
      case nd: False
      have "takeWhile (is_digit 10) t = [] \<longleftrightarrow> \<not> (\<exists>d r. t = d # r \<and> is_digit 10 d)"
        by (cases t) auto
      then show ?thesis
        using False Cons nd by (auto simp: unsigned_decimal_def Let_def split: prod.splits)
    qed
  qed
qed

lemma unsigned_decimal_not_NaN: "unsigned_decimal s = Some (n, r) \<Longrightarrow> n \<noteq> NaN"
  by (auto simp: unsigned_decimal_def Let_def to_double_not_NaN split: if_splits prod.splits)

lemma parseFloat_string_NaN:
  "parseFloat_string v = NaN \<longleftrightarrow> unsigned_decimal (snd (strip_sign (dropWhile is_space v))) = None"
  by (auto simp: parseFloat_string_def with_sign_NaN split: prod.splits option.splits
      dest: unsigned_decimal_not_NaN)

lemma non_decimal_not_NaN: "non_decimal t = Some n \<Longrightarrow> n \<noteq> NaN"
  by (auto simp: non_decimal_def Let_def to_double_not_NaN split: list.splits if_splits)

lemma dropWhile_all: "(\<forall>x \<in> set (dropWhile P v). P x) \<longleftrightarrow> (\<forall>x \<in> set v. P x)"
  by (induction v) auto

lemma trim_space_Nil: "trim_space v = [] \<longleftrightarrow> list_all is_space v"
  by (simp add: trim_space_def list_all_iff dropWhile_all)

lemma Number_string_blank: "list_all is_space v \<Longrightarrow> Number_string v = Finite 0"
  by (simp add: Number_string_def trim_space_Nil)

lemma Number_string_NaN:
  "Number_string v = NaN \<longleftrightarrow> \<not> list_all is_space v \<and> \<not> numeric_literal (trim_space v)"
proof (cases "list_all is_space v")
  case True
  then show ?thesis by (simp add: Number_string_blank)
next
  case False
  then have t: "trim_space v \<noteq> []" by (simp add: trim_space_Nil)
  show ?thesis
  proof (cases "non_decimal (trim_space v)")
    case (Some n)
    then show ?thesis
      using False t non_decimal_not_NaN [OF Some]
      by (simp add: Number_string_def numeric_literal_def)
  next
    case None
    then show ?thesis
      using False t
      by (auto simp: Number_string_def numeric_literal_def with_sign_NaN
          split: prod.splits option.splits list.splits dest: unsigned_decimal_not_NaN)
  qed
qed

text \<open>
  C4, the claim as stated: a string that is not a number of the requested type is cast
  to NaN. It is not always: the empty string is no floating-point value and \<open>Number\<close>
  gives 0; \<open>'12abc'\<close> and \<open>'1.5'\<close> are no base-10 integers and \<open>parseInt\<close> gives 12 and 1;
  \<open>'12abc'\<close> is no floating-point value and \<open>parseFloat\<close> gives 12.
\<close>

theorem numeric_casts_lenient_counterexample:
  "apply_cast string_runtime cast_Number (Str '''') = Num (Finite 0)
   \<and> apply_cast string_runtime cast_parseInt (Str ''12abc'') = Num (Finite 12)
   \<and> apply_cast string_runtime cast_parseInt (Str ''1.5'') = Num (Finite 1)
   \<and> apply_cast string_runtime cast_parseFloat (Str ''12abc'') = Num (Finite 12)"
  by (simp add: string_runtime_def Number_string_def parseInt_string_def parseFloat_string_def
      unsigned_decimal_def exponent_part_def scale10_def non_decimal_def numeric_literal_def
      trim_space_def strip_sign_def is_space_def is_digit_def digit_of_def digits_val_def
      with_sign_def to_double_def Let_def)

text \<open>
  C4, as amended: no cast raises, and each returns NaN exactly when its own conversion
  finds no number. The Integer cast: when the string, after leading white space and an
  optional sign, does not begin with a decimal digit. The Float cast: when the string,
  after leading white space and an optional sign, begins neither with a digit, nor with
  a dot and a digit, nor with \<open>Infinity\<close>. The Number cast: when the string, trimmed of
  white space, is not empty and is not as a whole a numeric literal; for an empty or
  all-white-space string it returns 0. So the Integer and Float casts accept a number
  followed by any text.
\<close>

theorem numeric_casts_NaN:
  assumes "ecmascript_on_strings rt"
  shows "(apply_cast rt cast_parseInt (Str v) = Num NaN \<longleftrightarrow>
            \<not> (\<exists>ws sg s. v = ws @ sg @ s \<and> list_all is_space ws \<and> sg \<in> {[], ''+'', ''-''}
                  \<and> (\<exists>d r. s = d # r \<and> is_digit 10 d)))
       \<and> (apply_cast rt cast_parseFloat (Str v) = Num NaN \<longleftrightarrow>
            \<not> (\<exists>ws sg s. v = ws @ sg @ s \<and> list_all is_space ws \<and> sg \<in> {[], ''+'', ''-''}
                  \<and> (take 8 s = ''Infinity'' \<or> (\<exists>d r. s = d # r \<and> is_digit 10 d)
                       \<or> (\<exists>d r. s = CHR ''.'' # d # r \<and> is_digit 10 d))))
       \<and> (list_all is_space v \<longrightarrow> apply_cast rt cast_Number (Str v) = Num (Finite 0))
       \<and> (apply_cast rt cast_Number (Str v) = Num NaN \<longleftrightarrow>
            \<not> list_all is_space v \<and> \<not> numeric_literal (trim_space v))"
proof -
  have rt: "js_Number rt (Str v) = Number_string v"
    "js_parseInt rt (Str v) (Finite 10) = parseInt_string v"
    "js_parseFloat rt (Str v) = parseFloat_string v"
    using assms by (simp_all add: ecmascript_on_strings_def)
  have int_body: "s \<noteq> [] \<and> \<not> is_space (hd s) \<and> hd s \<noteq> CHR ''-'' \<and> hd s \<noteq> CHR ''+''"
    if "\<exists>d r. s = d # r \<and> is_digit 10 d" for s
    using that by (auto dest: digit_not_space digit_not_sign)
  have float_body: "s \<noteq> [] \<and> \<not> is_space (hd s) \<and> hd s \<noteq> CHR ''-'' \<and> hd s \<noteq> CHR ''+''"
    if "take 8 s = ''Infinity'' \<or> (\<exists>d r. s = d # r \<and> is_digit 10 d)
          \<or> (\<exists>d r. s = CHR ''.'' # d # r \<and> is_digit 10 d)" for s
  proof (cases s)
    case Nil
    with that show ?thesis by simp
  next
    case (Cons c t)
    with that have "c = CHR ''I'' \<or> is_digit 10 c \<or> c = CHR ''.''"
      by auto
    then show ?thesis
      using Cons sign_not_space by (auto dest: digit_not_space digit_not_sign)
  qed
  have "apply_cast rt cast_parseInt (Str v) = Num NaN \<longleftrightarrow>
          \<not> (\<exists>ws sg s. v = ws @ sg @ s \<and> list_all is_space ws \<and> sg \<in> {[], ''+'', ''-''}
                \<and> (\<exists>d r. s = d # r \<and> is_digit 10 d))"
    using signed_prefix_iff [of "\<lambda>s. \<exists>d r. s = d # r \<and> is_digit 10 d" v, OF int_body]
    by (simp add: rt parseInt_string_NaN)
  moreover have "apply_cast rt cast_parseFloat (Str v) = Num NaN \<longleftrightarrow>
          \<not> (\<exists>ws sg s. v = ws @ sg @ s \<and> list_all is_space ws \<and> sg \<in> {[], ''+'', ''-''}
                \<and> (take 8 s = ''Infinity'' \<or> (\<exists>d r. s = d # r \<and> is_digit 10 d)
                     \<or> (\<exists>d r. s = CHR ''.'' # d # r \<and> is_digit 10 d)))"
    using signed_prefix_iff [of "\<lambda>s. take 8 s = ''Infinity'' \<or> (\<exists>d r. s = d # r \<and> is_digit 10 d)
                     \<or> (\<exists>d r. s = CHR ''.'' # d # r \<and> is_digit 10 d)" v, OF float_body]
    by (simp add: rt parseFloat_string_NaN unsigned_decimal_None)
  moreover have "list_all is_space v \<longrightarrow> apply_cast rt cast_Number (Str v) = Num (Finite 0)"
    by (simp add: rt Number_string_blank)
  moreover have "apply_cast rt cast_Number (Str v) = Num NaN \<longleftrightarrow>
            \<not> list_all is_space v \<and> \<not> numeric_literal (trim_space v)"
    by (simp add: rt Number_string_NaN)
  ultimately show ?thesis by blast
qed

text \<open>
  C4, a witness: \<open>'abc'\<close> under the Integer and Float casts, \<open>'  '\<close> and \<open>'12abc'\<close> under
  the Number cast.
\<close>

theorem numeric_casts_NaN_witness:
  "ecmascript_on_strings string_runtime
   \<and> apply_cast string_runtime cast_parseInt (Str ''abc'') = Num NaN
   \<and> apply_cast string_runtime cast_parseFloat (Str ''abc'') = Num NaN
   \<and> list_all is_space ''  ''
   \<and> apply_cast string_runtime cast_Number (Str ''  '') = Num (Finite 0)
   \<and> \<not> list_all is_space ''12abc''
   \<and> \<not> numeric_literal (trim_space ''12abc'')
   \<and> apply_cast string_runtime cast_Number (Str ''12abc'') = Num NaN"
proof -
  note inst = numeric_casts_NaN [OF string_runtime_ecmascript]
  have i: "apply_cast string_runtime cast_parseInt (Str ''abc'') = Num NaN"
    by (simp add: string_runtime_def Number_string_def parseInt_string_def parseFloat_string_def
      unsigned_decimal_def exponent_part_def scale10_def non_decimal_def numeric_literal_def
      trim_space_def strip_sign_def is_space_def is_digit_def digit_of_def digits_val_def
      with_sign_def to_double_def Let_def)
  have f: "apply_cast string_runtime cast_parseFloat (Str ''abc'') = Num NaN"
    by (simp add: string_runtime_def Number_string_def parseInt_string_def parseFloat_string_def
      unsigned_decimal_def exponent_part_def scale10_def non_decimal_def numeric_literal_def
      trim_space_def strip_sign_def is_space_def is_digit_def digit_of_def digits_val_def
      with_sign_def to_double_def Let_def)
  have b: "list_all is_space ''  ''"
    by (simp add: string_runtime_def Number_string_def parseInt_string_def parseFloat_string_def
      unsigned_decimal_def exponent_part_def scale10_def non_decimal_def numeric_literal_def
      trim_space_def strip_sign_def is_space_def is_digit_def digit_of_def digits_val_def
      with_sign_def to_double_def Let_def)
  have z: "apply_cast string_runtime cast_Number (Str ''  '') = Num (Finite 0)"
    using inst [of "''  ''"] b by blast
  have n1: "\<not> list_all is_space ''12abc''"
    by (simp add: string_runtime_def Number_string_def parseInt_string_def parseFloat_string_def
      unsigned_decimal_def exponent_part_def scale10_def non_decimal_def numeric_literal_def
      trim_space_def strip_sign_def is_space_def is_digit_def digit_of_def digits_val_def
      with_sign_def to_double_def Let_def)
  have n2: "\<not> numeric_literal (trim_space ''12abc'')"
    by (simp add: string_runtime_def Number_string_def parseInt_string_def parseFloat_string_def
      unsigned_decimal_def exponent_part_def scale10_def non_decimal_def numeric_literal_def
      trim_space_def strip_sign_def is_space_def is_digit_def digit_of_def digits_val_def
      with_sign_def to_double_def Let_def)
  have n: "apply_cast string_runtime cast_Number (Str ''12abc'') = Num NaN"
    using inst [of "''12abc''"] n1 n2 by blast
  show ?thesis
    using string_runtime_ecmascript i f b z n1 n2 n by simp
qed

section \<open>Parse and stringify fill disjoint fields\<close>

text \<open>
  C5: for every field configuration, every field of a schema built in parse mode
  (\<open>fromFile\<close>) has an undefined alignment, and every field of a schema built in
  stringify mode (\<open>toFile\<close>) has an undefined cast.
\<close>

theorem parse_and_stringify_fields_disjoint:
  "(getFields ''fromFile'' fieldConfig = Inr fs \<longrightarrow> (\<forall>f \<in> set fs. align f = Undefined))
   \<and> (getFields ''toFile'' fieldConfig = Inr fs' \<longrightarrow> (\<forall>f \<in> set fs'. cast f = None))"
proof (intro conjI impI ballI)
  fix f assume "getFields ''fromFile'' fieldConfig = Inr fs" and "f \<in> set fs"
  then obtain p w a d where "f = build_field ''fromFile'' p w a d"
    by (blast dest: getFields_Inr_built)
  then show "align f = Undefined" by (simp add: build_field_def)
next
  fix f assume "getFields ''toFile'' fieldConfig = Inr fs'" and "f \<in> set fs'"
  then obtain p w a d where "f = build_field ''toFile'' p w a d"
    by (blast dest: getFields_Inr_built)
  then show "cast f = None" by (simp add: build_field_def)
qed

text \<open>
  C5, a witness: the entry \<open>{property: 'id', width: 4, align: 'right', dataType:
  'integer'}\<close>, built in both modes.
\<close>

theorem parse_and_stringify_fields_disjoint_witness:
  "getFields ''fromFile'' (Object [(''field'', Array
       [Object [(''property'', Str ''id''), (''width'', Num (Finite 4)), (''align'', Str ''right''),
                (''dataType'', Str ''integer'')]])])
     = Inr [\<lparr>property = Str ''id'', width = Num (Finite 4), cast = Some cast_parseInt,
             align = Undefined\<rparr>]
   \<and> align \<lparr>property = Str ''id'', width = Num (Finite 4), cast = Some cast_parseInt,
             align = Undefined\<rparr> = Undefined
   \<and> getFields ''toFile'' (Object [(''field'', Array
       [Object [(''property'', Str ''id''), (''width'', Num (Finite 4)), (''align'', Str ''right''),
                (''dataType'', Str ''integer'')]])])
     = Inr [\<lparr>property = Str ''id'', width = Num (Finite 4), cast = None, align = Str ''right''\<rparr>]
   \<and> cast \<lparr>property = Str ''id'', width = Num (Finite 4), cast = None, align = Str ''right''\<rparr>
       = None"
proof -
  let ?cfg = "Object [(''field'', Array
       [Object [(''property'', Str ''id''), (''width'', Num (Finite 4)), (''align'', Str ''right''),
                (''dataType'', Str ''integer'')]])]"
  let ?f = "\<lparr>property = Str ''id'', width = Num (Finite 4), cast = Some cast_parseInt,
             align = Undefined\<rparr>"
  let ?g = "\<lparr>property = Str ''id'', width = Num (Finite 4), cast = None, align = Str ''right''\<rparr>"
  have h1: "getFields ''fromFile'' ?cfg = Inr [?f]"
    by (simp add: getFields_def js_or_def field_of_def build_field_def lookup_def select_cast_def)
  have h2: "getFields ''toFile'' ?cfg = Inr [?g]"
    by (simp add: getFields_def js_or_def field_of_def build_field_def lookup_def)
  from parse_and_stringify_fields_disjoint [of ?cfg "[?f]" "[?g]"] h1 h2
  have "align ?f = Undefined \<and> cast ?g = None"
    by simp
  with h1 h2 show ?thesis by simp
qed

section \<open>One field per entry, in order\<close>

text \<open>
  C6: for every list of raw field entries and every operation, \<open>getFields\<close> returns
  exactly one field per entry, in the order of the entries, and the field at each
  position has the property and the width of the entry at that position.
\<close>

theorem getFields_one_field_per_entry:
  assumes "lookup cfg ''field'' = Array (map Object raws)"
  shows "\<exists>fs. getFields operation (Object cfg) = Inr fs \<and> length fs = length raws \<and>
           (\<forall>i<length raws. property (fs ! i) = lookup (raws ! i) ''property'' \<and>
                              width (fs ! i) = lookup (raws ! i) ''width'')"
  by (simp add: getFields_objects [OF assms] build_field_def)

text \<open>
  C6, a witness: the schema of the spec's scenario, \<open>id\<close> of width 4 then \<open>name\<close> of
  width 6.
\<close>

theorem getFields_one_field_per_entry_witness:
  "lookup [(''field'', Array
       [Object [(''property'', Str ''id''), (''width'', Num (Finite 4)), (''dataType'', Str ''integer'')],
        Object [(''property'', Str ''name''), (''width'', Num (Finite 6)), (''dataType'', Str ''string'')]])]
     ''field''
     = Array (map Object
       [[(''property'', Str ''id''), (''width'', Num (Finite 4)), (''dataType'', Str ''integer'')],
        [(''property'', Str ''name''), (''width'', Num (Finite 6)), (''dataType'', Str ''string'')]])
   \<and> (\<exists>fs. getFields ''fromFile'' (Object [(''field'', Array
       [Object [(''property'', Str ''id''), (''width'', Num (Finite 4)), (''dataType'', Str ''integer'')],
        Object [(''property'', Str ''name''), (''width'', Num (Finite 6)), (''dataType'', Str ''string'')]])])
        = Inr fs \<and> length fs = 2
        \<and> property (fs ! 0) = Str ''id'' \<and> width (fs ! 0) = Num (Finite 4)
        \<and> property (fs ! 1) = Str ''name'' \<and> width (fs ! 1) = Num (Finite 6))"
proof -
  let ?r1 = "[(''property'', Str ''id''), (''width'', Num (Finite 4)), (''dataType'', Str ''integer'')]"
  let ?r2 = "[(''property'', Str ''name''), (''width'', Num (Finite 6)), (''dataType'', Str ''string'')]"
  let ?cfg = "[(''field'', Array [Object ?r1, Object ?r2])]"
  have h: "lookup ?cfg ''field'' = Array (map Object [?r1, ?r2])"
    by (simp add: lookup_def)
  from getFields_one_field_per_entry [OF h, of "''fromFile''"]
  obtain fs where fs: "getFields ''fromFile'' (Object ?cfg) = Inr fs" "length fs = 2"
    and nth: "\<forall>i<2. property (fs ! i) = lookup ([?r1, ?r2] ! i) ''property'' \<and>
                     width (fs ! i) = lookup ([?r1, ?r2] ! i) ''width''"
    by auto
  from nth have "property (fs ! 0) = Str ''id'' \<and> width (fs ! 0) = Num (Finite 4)"
    by (simp add: lookup_def)
  moreover from nth have "property (fs ! 1) = Str ''name'' \<and> width (fs ! 1) = Num (Finite 6)"
    by (simp add: lookup_def)
  ultimately show ?thesis
    using h fs by auto
qed

section \<open>Schema construction is deterministic and writes nothing\<close>

text \<open>A read at an allocated address does not depend on the cells allocated after it.\<close>

lemma rget_frame:
  "rval_ok (length s) v \<Longrightarrow> rget (s @ ext) v k = rget s v k"
  by (cases v) (auto simp: rval_ok_def nth_append)

lemma field_literal_frame:
  "rval_ok (length s) raw \<Longrightarrow> field_literal operation raw (s @ ext) = field_literal operation raw s"
  by (simp add: field_literal_def rget_frame cong: sum.case_cong)

lemma map_Ref_upt:
  "map Ref [n..<n + Suc k] = Ref n # map Ref [Suc n..<Suc n + k]"
  by (simp add: upt_conv_Cons del: upt_Suc)

lemma rmap_fields_built:
  "list_all (rval_ok (length s)) xs \<Longrightarrow>
   rmap_fields operation xs (s @ ext) =
     (case built operation xs s of
        (cs, None) \<Rightarrow>
          (Inr (map Ref [length s + length ext ..< length s + length ext + length cs]), s @ ext @ cs)
      | (cs, Some e) \<Rightarrow> (Inl e, s @ ext @ cs))"
proof (induction xs arbitrary: ext)
  case Nil
  then show ?case by simp
next
  case (Cons x xs)
  then have x: "rval_ok (length s) x" and xs: "list_all (rval_ok (length s)) xs"
    by simp_all
  show ?case
  proof (cases "field_literal operation x s")
    case (Inl e)
    then show ?thesis
      using x by (simp add: rfield_of_def field_literal_frame)
  next
    case (Inr c)
    have step: "rfield_of operation x (s @ ext) = (Inr (Ref (length s + length ext)), s @ (ext @ [c]))"
      using x Inr by (simp add: rfield_of_def field_literal_frame alloc_def)
    obtain cs e where b: "built operation xs s = (cs, e)"
      by (cases "built operation xs s")
    have ih: "rmap_fields operation xs (s @ (ext @ [c])) =
       (case e of
          None \<Rightarrow> (Inr (map Ref [Suc (length s + length ext) ..< Suc (length s + length ext) + length cs]),
                   s @ ext @ c # cs)
        | Some err \<Rightarrow> (Inl err, s @ ext @ c # cs))"
      using Cons.IH [OF xs, of "ext @ [c]"] b by (simp split: option.splits)
    show ?thesis
    proof (cases e)
      case None
      then show ?thesis
        using ih step Inr b map_Ref_upt [of "length s + length ext" "length cs"]
        by (simp del: upt_Suc)
    next
      case (Some err)
      then show ?thesis
        using ih step Inr b by simp
    qed
  qed
qed


text \<open>What is read from a store without dangling addresses has none either.\<close>

lemma array_of_frame:
  "rval_ok (length s) v \<Longrightarrow> array_of (s @ ext) v = array_of s v"
  by (cases v) (auto simp: rval_ok_def array_of_def nth_append)

lemma closed_cell: "closed s \<Longrightarrow> a < length s \<Longrightarrow> cell_ok (length s) (s ! a)"
  by (simp add: closed_def list_all_length)

lemma rget_ok:
  assumes "closed s" and "rget s v k = Inr w"
  shows "rval_ok (length s) w"
proof (cases v)
  case (Ref a)
  show ?thesis
  proof (cases "a < length s")
    case True
    then have ok: "cell_ok (length s) (s ! a)"
      using assms(1) by (rule closed_cell [rotated])
    show ?thesis
    proof (cases "s ! a")
      case (ObjectCell kvs)
      show ?thesis
      proof (cases "map_of kvs k")
        case None
        then show ?thesis
          using assms(2) Ref True ObjectCell by (simp add: rval_ok_def)
      next
        case (Some u)
        then have "(k, u) \<in> set kvs" by (rule map_of_SomeD)
        moreover have "list_all (\<lambda>kv. rval_ok (length s) (snd kv)) kvs"
          using ok ObjectCell by (simp add: cell_ok_def)
        ultimately have "rval_ok (length s) u"
          by (auto simp: list_all_iff)
        then show ?thesis
          using assms(2) Ref True ObjectCell Some by simp
      qed
    next
      case (ArrayCell xs)
      then show ?thesis
        using assms(2) Ref True by (auto simp: rval_ok_def)
    qed
  next
    case False
    then show ?thesis
      using assms(2) Ref by (auto simp: rval_ok_def)
  qed
qed (use assms(2) in \<open>auto simp: rval_ok_def\<close>)

lemma array_of_ok:
  assumes "closed s" and "array_of s v = Some xs"
  shows "list_all (rval_ok (length s)) xs"
proof -
  from assms(2) obtain a where a: "v = Ref a" "a < length s" "s ! a = ArrayCell xs"
    by (auto simp: array_of_def split: rval.splits if_splits cell.splits)
  with closed_cell [OF assms(1) a(2)] show ?thesis
    by (simp add: cell_ok_def)
qed

lemma rget_truthy: "rtruthy v \<Longrightarrow> \<exists>w. rget s v k = Inr w"
  by (cases "(s, v, k)" rule: rget.cases) (auto split: cell.splits)

text \<open>Reading back the array that \<open>getFields\<close> allocates last.\<close>

lemma array_of_at:
  "array_of (pre @ ArrayCell rs # post) (Ref (length pre)) = Some rs"
  by (simp add: array_of_def)

lemma deref_block:
  "map (deref (pre @ cs @ post)) (map Ref [length pre ..< length pre + length cs]) = map Some cs"
  by (rule nth_equalityI) (auto simp: deref_def nth_append)

lemma schema_at_built:
  "schema_at (pre @ cs @ ArrayCell (map Ref [length pre ..< length pre + length cs]) # post)
     (Inr (Ref (length pre + length cs))) = Inr (map Some cs)"
proof -
  have "array_of ((pre @ cs) @ ArrayCell (map Ref [length pre ..< length pre + length cs]) # post)
          (Ref (length (pre @ cs))) = Some (map Ref [length pre ..< length pre + length cs])"
    by (rule array_of_at)
  moreover have "map (deref (pre @ cs @ (ArrayCell (map Ref [length pre ..< length pre + length cs]) # post)))
          (map Ref [length pre ..< length pre + length cs]) = map Some cs"
    by (rule deref_block)
  ultimately show ?thesis
    by (simp add: schema_at_def)
qed

text \<open>
  The model over values computes, on the tree read from the store, what the model over
  the store computes.
\<close>

lemma truthy_Num: "truthy (Num x) = rtruthy (RNum x)"
  by (cases x) simp_all

lemma truthy_abs_val: "truthy (abs_val d s v) = rtruthy v"
  by (induction d s v rule: abs_val.induct) (auto simp: truthy_Num split: cell.splits)

lemma lookup_abs:
  "lookup (map (\<lambda>kv. (fst kv, abs_val d s (snd kv))) kvs) k
     = abs_val d s (case map_of kvs k of None \<Rightarrow> RUndefined | Some v \<Rightarrow> v)"
  by (induction kvs) (auto simp: lookup_def)

lemma lookup_Nil: "lookup [] k = Undefined"
  by (simp add: lookup_def)

lemma get_abs_val:
  "get (abs_val (Suc d) s v) k = map_sum id (abs_val d s) (rget s v k)"
  by (cases v) (auto simp: lookup_abs lookup_Nil split: cell.splits)

lemma array_abs_val:
  "(case abs_val (Suc d) s v of Array ys \<Rightarrow> Some ys | _ \<Rightarrow> None)
     = map_option (map (abs_val d s)) (array_of s v)"
  by (cases v) (auto simp: array_of_def split: cell.splits)

lemma abs_val_not_Str: "abs_val d s (Ref a) \<noteq> Str t"
  by (cases d) (auto split: cell.splits)

lemma select_cast_abs_val:
  "select_cast (abs_val d s v) = (case rselect_cast v of RFun f \<Rightarrow> Some f | _ \<Rightarrow> None)"
  by (cases v) (auto simp: select_cast_def rselect_cast_def abs_val_not_Str)

lemma rget_Inr: "rget s x k = Inr p \<Longrightarrow> \<exists>w. rget s x k' = Inr w"
  by (cases x) (auto split: cell.splits)

lemma field_of_abs_val:
  "field_of operation (abs_val (Suc d) s x)
     = map_sum id (field_of_cell d s) (field_literal operation x s)"
proof (cases "rget s x ''property''")
  case (Inl e)
  then show ?thesis
    by (simp add: field_of_def field_literal_def get_abs_val)
next
  case (Inr p)
  from rget_Inr [OF Inr] obtain w a t where "rget s x ''width'' = Inr w"
    "rget s x ''align'' = Inr a" "rget s x ''dataType'' = Inr t"
    by metis
  with Inr show ?thesis
    by (simp add: field_of_def field_literal_def get_abs_val build_field_def field_of_cell_def
        select_cast_abs_val)
qed

lemma map_fields_abs_val:
  "map_fields (field_of operation) (map (abs_val (Suc d) s) xs)
     = (case built operation xs s of
          (cs, None) \<Rightarrow> Inr (map (field_of_cell d s) cs)
        | (cs, Some e) \<Rightarrow> Inl e)"
proof (induction xs)
  case Nil
  then show ?case by simp
next
  case (Cons x xs)
  show ?case
  proof (cases "field_literal operation x s")
    case (Inl e)
    then show ?thesis by (simp add: field_of_abs_val)
  next
    case (Inr c)
    obtain cs e where "built operation xs s = (cs, e)"
      by (cases "built operation xs s")
    with Cons.IH Inr show ?thesis
      by (cases e) (simp_all add: field_of_abs_val)
  qed
qed

lemma getFields_abs_val:
  "getFields operation (abs_val (Suc (Suc (Suc d))) s fieldConfig)
     = map_sum id (map (field_of_cell d s)) (outcome operation fieldConfig s)"
proof (cases "rtruthy fieldConfig")
  case False
  then have "\<not> truthy (abs_val (Suc (Suc (Suc d))) s fieldConfig)"
    by (simp add: truthy_abs_val)
  then show ?thesis
    using False by (simp add: getFields_def js_or_def outcome_def lookup_Nil)
next
  case True
  then have t: "truthy (abs_val (Suc (Suc (Suc d))) s fieldConfig)"
    by (simp add: truthy_abs_val)
  from True obtain fld where fld: "rget s fieldConfig ''field'' = Inr fld"
    using rget_truthy by blast
  have g: "get (abs_val (Suc (Suc (Suc d))) s fieldConfig) ''field'' = Inr (abs_val (Suc (Suc d)) s fld)"
    using fld by (simp add: get_abs_val)
  have start: "getFields operation (abs_val (Suc (Suc (Suc d))) s fieldConfig)
      = (case js_or (abs_val (Suc (Suc d)) s fld) (Array []) of
           Array rawFields \<Rightarrow> map_fields (field_of operation) rawFields
         | _ \<Rightarrow> Inl TypeError)"
    using t g by (simp add: getFields_def js_or_def)
  show ?thesis
  proof (cases "rtruthy fld")
    case False
    then have "js_or (abs_val (Suc (Suc d)) s fld) (Array []) = Array []"
      by (simp add: js_or_def truthy_abs_val)
    then show ?thesis
      using True False fld by (simp add: start outcome_def)
  next
    case fld_true: True
    then have ft: "js_or (abs_val (Suc (Suc d)) s fld) (Array []) = abs_val (Suc (Suc d)) s fld"
      by (simp add: js_or_def truthy_abs_val)
    show ?thesis
    proof (cases "array_of s fld")
      case None
      then have "(case abs_val (Suc (Suc d)) s fld of Array ys \<Rightarrow> Some ys | _ \<Rightarrow> None) = None"
        by (simp add: array_abs_val)
      then have "(case abs_val (Suc (Suc d)) s fld of
                    Array rawFields \<Rightarrow> map_fields (field_of operation) rawFields
                  | _ \<Rightarrow> Inl TypeError) = Inl TypeError"
        by (auto split: val.splits)
      then show ?thesis
        using True fld_true fld None by (simp add: start ft outcome_def)
    next
      case (Some xs)
      then have "(case abs_val (Suc (Suc d)) s fld of Array ys \<Rightarrow> Some ys | _ \<Rightarrow> None)
                   = Some (map (abs_val (Suc d) s) xs)"
        by (simp add: array_abs_val)
      then have "abs_val (Suc (Suc d)) s fld = Array (map (abs_val (Suc d) s) xs)"
        by (auto split: val.splits)
      then show ?thesis
        using True fld_true fld Some map_fields_abs_val [of operation d s xs]
        by (auto simp: start js_or_def outcome_def split: prod.splits option.splits)
    qed
  qed
qed

text \<open>
  A call in a store that extends \<open>s\<close> by any cells \<open>ext\<close> only appends cells, and the
  schema it returns is the one computed from \<open>s\<close>, whatever is allocated later.
\<close>

lemma getFields_store_outcome:
  assumes cl: "closed s" and ok: "rval_ok (length s) fieldConfig"
  shows "\<exists>r new. getFields_store operation fieldConfig (s @ ext) = (r, s @ ext @ new)
            \<and> (\<forall>post. schema_at (s @ ext @ new @ post) r
                  = map_sum id (map Some) (outcome operation fieldConfig s))"
proof (cases "rtruthy fieldConfig")
  case False
  have "getFields_store operation fieldConfig (s @ ext)
          = (Inr (Ref (length s + length ext + 2)),
             s @ ext @ [ObjectCell [], ArrayCell [], ArrayCell []])"
    using False by (simp add: getFields_store_def alloc_def array_of_def nth_append)
  moreover have "\<forall>post. schema_at (s @ ext @ [ObjectCell [], ArrayCell [], ArrayCell []] @ post)
           (Inr (Ref (length s + length ext + 2))) = Inr []"
    by (simp add: schema_at_def array_of_def nth_append)
  moreover have "outcome operation fieldConfig s = Inr []"
    using False by (simp add: outcome_def)
  ultimately show ?thesis
    by (metis list.simps(8) map_sum.simps(2))
next
  case True
  then obtain fld where fld: "rget s fieldConfig ''field'' = Inr fld"
    using rget_truthy by blast
  have fld_ok: "rval_ok (length s) fld"
    using cl fld by (rule rget_ok)
  have rd: "rget (s @ ext) fieldConfig ''field'' = Inr fld"
    using ok fld by (simp add: rget_frame)
  show ?thesis
  proof (cases "rtruthy fld")
    case False
    have "getFields_store operation fieldConfig (s @ ext)
            = (Inr (Ref (length s + length ext + 1)), s @ ext @ [ArrayCell [], ArrayCell []])"
      using True False rd
      by (simp add: getFields_store_def alloc_def array_of_def nth_append)
    moreover have "\<forall>post. schema_at (s @ ext @ [ArrayCell [], ArrayCell []] @ post)
             (Inr (Ref (length s + length ext + 1))) = Inr []"
      by (simp add: schema_at_def array_of_def nth_append)
    moreover have "outcome operation fieldConfig s = Inr []"
      using True False fld by (simp add: outcome_def)
    ultimately show ?thesis
      by (metis list.simps(8) map_sum.simps(2))
  next
    case fld_true: True
    have ar: "array_of (s @ ext) fld = array_of s fld"
      using fld_ok by (rule array_of_frame)
    show ?thesis
    proof (cases "array_of s fld")
      case None
      have "getFields_store operation fieldConfig (s @ ext) = (Inl TypeError, s @ ext @ [])"
        using True fld_true rd ar None by (simp add: getFields_store_def)
      moreover have "\<forall>post. schema_at (s @ ext @ [] @ post) (Inl TypeError) = Inl TypeError"
        by (simp add: schema_at_def)
      moreover have "outcome operation fieldConfig s = Inl TypeError"
        using True fld_true fld None by (simp add: outcome_def)
      ultimately show ?thesis
        by (metis map_sum.simps(1) id_apply)
    next
      case (Some xs)
      have xs_ok: "list_all (rval_ok (length s)) xs"
        using cl Some by (rule array_of_ok)
      obtain cs e where b: "built operation xs s = (cs, e)"
        by (cases "built operation xs s")
      show ?thesis
      proof (cases e)
        case None
        let ?n = "length s + length ext"
        let ?rs = "map Ref [?n ..< ?n + length cs]"
        have run: "getFields_store operation fieldConfig (s @ ext)
                = (Inr (Ref (?n + length cs)), s @ ext @ (cs @ [ArrayCell ?rs]))"
          using True fld_true rd ar Some b None rmap_fields_built [OF xs_ok, of operation ext]
          by (simp add: getFields_store_def alloc_def)
        have "schema_at (s @ ext @ (cs @ [ArrayCell ?rs]) @ post) (Inr (Ref (?n + length cs)))
                = Inr (map Some cs)" for post
          using schema_at_built [of "s @ ext" cs post] by simp
        moreover have "outcome operation fieldConfig s = Inr cs"
          using True fld_true fld Some b None by (simp add: outcome_def)
        ultimately show ?thesis
          using run by (metis map_sum.simps(2))
      next
        case (Some err)
        have "getFields_store operation fieldConfig (s @ ext) = (Inl err, s @ ext @ cs)"
          using True fld_true rd ar \<open>array_of s fld = Some xs\<close> b Some
            rmap_fields_built [OF xs_ok, of operation ext]
          by (simp add: getFields_store_def)
        moreover have "\<forall>post. schema_at (s @ ext @ cs @ post) (Inl err) = Inl err"
          by (simp add: schema_at_def)
        moreover have "outcome operation fieldConfig s = Inl err"
          using True fld_true fld \<open>array_of s fld = Some xs\<close> b Some by (simp add: outcome_def)
        ultimately show ?thesis
          by (metis map_sum.simps(1) id_apply)
      qed
    qed
  qed
qed

lemma getFields_store_refines:
  assumes "closed s" and "rval_ok (length s) fieldConfig"
    and "getFields_store operation fieldConfig s = (r, s')"
  shows "schema_at s' r = map_sum id (map Some) (outcome operation fieldConfig s)
         \<and> getFields operation (abs_val (Suc (Suc (Suc d))) s fieldConfig)
             = map_sum id (map (field_of_cell d s)) (outcome operation fieldConfig s)"
proof -
  from getFields_store_outcome [OF assms(1,2), of operation "[]"] assms(3)
  obtain new where "s' = s @ new"
    and "\<And>post. schema_at (s @ new @ post) r = map_sum id (map Some) (outcome operation fieldConfig s)"
    by auto
  from this(2) [of "[]"] this(1)
  have "schema_at s' r = map_sum id (map Some) (outcome operation fieldConfig s)"
    by simp
  then show ?thesis
    by (simp add: getFields_abs_val)
qed

text \<open>
  C7: in a store without dangling addresses, two calls of \<open>getFields\<close>, one after the
  other, with the same operation and the same configuration return equal schemas (the
  same error, or field objects with the same entries in the same order), and neither
  call changes a cell that existed before it: each only adds cells, so the configuration
  object, its \<open>field\<close> array and its entries are as they were, and the first schema is
  untouched by the second call.
\<close>

theorem getFields_store_deterministic:
  assumes "closed s" and "rval_ok (length s) fieldConfig"
    and "getFields_store operation fieldConfig s = (r1, s1)"
    and "getFields_store operation fieldConfig s1 = (r2, s2)"
  shows "take (length s) s1 = s \<and> take (length s) s2 = s
         \<and> schema_at s1 r1 = schema_at s2 r2 \<and> schema_at s2 r1 = schema_at s1 r1"
proof -
  let ?sch = "map_sum id (map Some) (outcome operation fieldConfig s)"
  from getFields_store_outcome [OF assms(1,2), of operation "[]"] assms(3)
  obtain new1 where
    s1: "s1 = s @ new1" and m1: "\<And>post. schema_at (s @ new1 @ post) r1 = ?sch"
    by auto
  from getFields_store_outcome [OF assms(1,2), of operation new1] assms(4) s1
  obtain new2 where
    s2: "s2 = s @ new1 @ new2" and m2: "\<And>post. schema_at (s @ new1 @ new2 @ post) r2 = ?sch"
    by auto
  have "schema_at s1 r1 = ?sch" using m1 [of "[]"] s1 by simp
  moreover have "schema_at s2 r2 = ?sch" using m2 [of "[]"] s2 by simp
  moreover have "schema_at s2 r1 = ?sch" using m1 [of new2] s2 by simp
  ultimately show ?thesis
    using s1 s2 by simp
qed

text \<open>
  C7, a witness: the configuration \<open>{field: [{property: 'id', width: 4, dataType:
  'integer'}]}\<close> at address 0, parsed twice.
\<close>

theorem getFields_store_deterministic_witness:
  "closed [ObjectCell [(''field'', Ref 1)], ArrayCell [Ref 2],
           ObjectCell [(''property'', RStr ''id''), (''width'', RNum (Finite 4)),
                       (''dataType'', RStr ''integer'')]]
   \<and> rval_ok 3 (Ref 0)
   \<and> getFields_store ''fromFile'' (Ref 0)
        [ObjectCell [(''field'', Ref 1)], ArrayCell [Ref 2],
         ObjectCell [(''property'', RStr ''id''), (''width'', RNum (Finite 4)),
                     (''dataType'', RStr ''integer'')]]
      = (Inr (Ref 4),
         [ObjectCell [(''field'', Ref 1)], ArrayCell [Ref 2],
          ObjectCell [(''property'', RStr ''id''), (''width'', RNum (Finite 4)),
                      (''dataType'', RStr ''integer'')],
          ObjectCell [(''property'', RStr ''id''), (''width'', RNum (Finite 4)),
                      (''cast'', RFun cast_parseInt), (''align'', RUndefined)],
          ArrayCell [Ref 3]])
   \<and> getFields_store ''fromFile'' (Ref 0)
         [ObjectCell [(''field'', Ref 1)], ArrayCell [Ref 2],
          ObjectCell [(''property'', RStr ''id''), (''width'', RNum (Finite 4)),
                      (''dataType'', RStr ''integer'')],
          ObjectCell [(''property'', RStr ''id''), (''width'', RNum (Finite 4)),
                      (''cast'', RFun cast_parseInt), (''align'', RUndefined)],
          ArrayCell [Ref 3]]
      = (Inr (Ref 6),
         [ObjectCell [(''field'', Ref 1)], ArrayCell [Ref 2],
          ObjectCell [(''property'', RStr ''id''), (''width'', RNum (Finite 4)),
                      (''dataType'', RStr ''integer'')],
          ObjectCell [(''property'', RStr ''id''), (''width'', RNum (Finite 4)),
                      (''cast'', RFun cast_parseInt), (''align'', RUndefined)],
          ArrayCell [Ref 3],
          ObjectCell [(''property'', RStr ''id''), (''width'', RNum (Finite 4)),
                      (''cast'', RFun cast_parseInt), (''align'', RUndefined)],
          ArrayCell [Ref 5]])
   \<and> schema_at
         [ObjectCell [(''field'', Ref 1)], ArrayCell [Ref 2],
          ObjectCell [(''property'', RStr ''id''), (''width'', RNum (Finite 4)),
                      (''dataType'', RStr ''integer'')],
          ObjectCell [(''property'', RStr ''id''), (''width'', RNum (Finite 4)),
                      (''cast'', RFun cast_parseInt), (''align'', RUndefined)],
          ArrayCell [Ref 3]] (Inr (Ref 4))
      = Inr [Some (ObjectCell [(''property'', RStr ''id''), (''width'', RNum (Finite 4)),
                               (''cast'', RFun cast_parseInt), (''align'', RUndefined)])]
   \<and> schema_at
         [ObjectCell [(''field'', Ref 1)], ArrayCell [Ref 2],
          ObjectCell [(''property'', RStr ''id''), (''width'', RNum (Finite 4)),
                      (''dataType'', RStr ''integer'')],
          ObjectCell [(''property'', RStr ''id''), (''width'', RNum (Finite 4)),
                      (''cast'', RFun cast_parseInt), (''align'', RUndefined)],
          ArrayCell [Ref 3],
          ObjectCell [(''property'', RStr ''id''), (''width'', RNum (Finite 4)),
                      (''cast'', RFun cast_parseInt), (''align'', RUndefined)],
          ArrayCell [Ref 5]] (Inr (Ref 6))
      = Inr [Some (ObjectCell [(''property'', RStr ''id''), (''width'', RNum (Finite 4)),
                               (''cast'', RFun cast_parseInt), (''align'', RUndefined)])]
   \<and> take 3
         [ObjectCell [(''field'', Ref 1)], ArrayCell [Ref 2],
          ObjectCell [(''property'', RStr ''id''), (''width'', RNum (Finite 4)),
                      (''dataType'', RStr ''integer'')],
          ObjectCell [(''property'', RStr ''id''), (''width'', RNum (Finite 4)),
                      (''cast'', RFun cast_parseInt), (''align'', RUndefined)],
          ArrayCell [Ref 3],
          ObjectCell [(''property'', RStr ''id''), (''width'', RNum (Finite 4)),
                      (''cast'', RFun cast_parseInt), (''align'', RUndefined)],
          ArrayCell [Ref 5]]
      = [ObjectCell [(''field'', Ref 1)], ArrayCell [Ref 2],
         ObjectCell [(''property'', RStr ''id''), (''width'', RNum (Finite 4)),
                     (''dataType'', RStr ''integer'')]]"
proof -
  let ?entry = "ObjectCell [(''property'', RStr ''id''), (''width'', RNum (Finite 4)),
                            (''dataType'', RStr ''integer'')]"
  let ?field = "ObjectCell [(''property'', RStr ''id''), (''width'', RNum (Finite 4)),
                            (''cast'', RFun cast_parseInt), (''align'', RUndefined)]"
  let ?s = "[ObjectCell [(''field'', Ref 1)], ArrayCell [Ref 2], ?entry]"
  let ?s1 = "[ObjectCell [(''field'', Ref 1)], ArrayCell [Ref 2], ?entry, ?field, ArrayCell [Ref 3]]"
  let ?s2 = "[ObjectCell [(''field'', Ref 1)], ArrayCell [Ref 2], ?entry, ?field, ArrayCell [Ref 3],
              ?field, ArrayCell [Ref 5]]"
  have h1: "closed ?s"
    by (simp add: closed_def cell_ok_def rval_ok_def)
  have h2: "rval_ok (length ?s) (Ref 0)"
    by (simp add: rval_ok_def)
  have h3: "getFields_store ''fromFile'' (Ref 0) ?s = (Inr (Ref 4), ?s1)"
    by (simp add: getFields_store_def alloc_def array_of_def rfield_of_def field_literal_def
        rselect_cast_def)
  have h4: "getFields_store ''fromFile'' (Ref 0) ?s1 = (Inr (Ref 6), ?s2)"
    by (simp add: getFields_store_def alloc_def array_of_def rfield_of_def field_literal_def
        rselect_cast_def)
  have e1: "schema_at ?s1 (Inr (Ref 4)) = Inr [Some ?field]"
    by (simp add: schema_at_def array_of_def deref_def)
  from getFields_store_deterministic [OF h1 h2 h3 h4]
  have d: "take (length ?s) ?s2 = ?s \<and> schema_at ?s2 (Inr (Ref 6)) = schema_at ?s1 (Inr (Ref 4))"
    by simp
  with e1 have e2: "schema_at ?s2 (Inr (Ref 6)) = Inr [Some ?field]"
    by simp
  from d have t: "take 3 ?s2 = ?s"
    by simp
  show ?thesis
    using h1 h2 h3 h4 e1 e2 t by (simp add: rval_ok_def)
qed

section \<open>The trim and pad options\<close>

text \<open>
  C8: for every options object, the \<open>trim\<close> value given to \<open>parse\<close> and to \<open>stringify\<close>
  is \<open>true\<close> for \<open>'both'\<close>, \<open>false\<close> for \<open>'none'\<close>, the option itself for \<open>'left'\<close> and
  \<open>'right'\<close>, and \<open>true\<close> for every other value and for an absent option.
\<close>

theorem trim_of_cases:
  "(lookup options ''trim'' = Str ''both'' \<longrightarrow> trim_of options = Bool True)
   \<and> (lookup options ''trim'' = Str ''none'' \<longrightarrow> trim_of options = Bool False)
   \<and> (lookup options ''trim'' = Str ''left'' \<longrightarrow> trim_of options = Str ''left'')
   \<and> (lookup options ''trim'' = Str ''right'' \<longrightarrow> trim_of options = Str ''right'')
   \<and> (lookup options ''trim'' \<notin> {Str ''both'', Str ''none'', Str ''left'', Str ''right''}
        \<longrightarrow> trim_of options = Bool True)
   \<and> (map_of options ''trim'' = None \<longrightarrow> trim_of options = Bool True)
   \<and> map_of (parserOptions options schema) ''trim'' = Some (Value (trim_of options))
   \<and> map_of (stringifyOptions options schema) ''trim'' = Some (Value (trim_of options))"
proof -
  have "map_of (parserOptions options schema) ''trim'' = Some (Value (trim_of options))"
    by (simp add: parserOptions_def update_conv')
  moreover have "map_of (stringifyOptions options schema) ''trim'' = Some (Value (trim_of options))"
    by (simp add: stringifyOptions_def update_conv')
  moreover have "map_of options ''trim'' = None \<longrightarrow> trim_of options = Bool True"
    by (simp add: trim_of_def lookup_def)
  moreover have "lookup options ''trim'' \<notin> {Str ''both'', Str ''none'', Str ''left'', Str ''right''}
        \<longrightarrow> trim_of options = Bool True"
    by (auto simp: trim_of_def Let_def split: val.splits)
  ultimately show ?thesis
    by (simp add: trim_of_def)
qed

text \<open>
  C8, a witness: the options \<open>{trim: 'both'}\<close>, \<open>{trim: 'none'}\<close>, \<open>{trim: 'left'}\<close>,
  \<open>{trim: 'right'}\<close>, \<open>{trim: 'all'}\<close> and \<open>{}\<close>.
\<close>

theorem trim_of_cases_witness:
  "trim_of [(''trim'', Str ''both'')] = Bool True
   \<and> trim_of [(''trim'', Str ''none'')] = Bool False
   \<and> trim_of [(''trim'', Str ''left'')] = Str ''left''
   \<and> trim_of [(''trim'', Str ''right'')] = Str ''right''
   \<and> trim_of [(''trim'', Str ''all'')] = Bool True
   \<and> trim_of [] = Bool True
   \<and> map_of (parserOptions [(''trim'', Str ''none'')] []) ''trim'' = Some (Value (Bool False))
   \<and> map_of (stringifyOptions [(''trim'', Str ''none'')] []) ''trim'' = Some (Value (Bool False))"
proof -
  have "trim_of [(''trim'', Str ''both'')] = Bool True"
    using trim_of_cases [of "[(''trim'', Str ''both'')]" "[]"] by (simp add: lookup_def)
  moreover have none: "trim_of [(''trim'', Str ''none'')] = Bool False"
    using trim_of_cases [of "[(''trim'', Str ''none'')]" "[]"] by (simp add: lookup_def)
  moreover have "trim_of [(''trim'', Str ''left'')] = Str ''left''"
    using trim_of_cases [of "[(''trim'', Str ''left'')]" "[]"] by (simp add: lookup_def)
  moreover have "trim_of [(''trim'', Str ''right'')] = Str ''right''"
    using trim_of_cases [of "[(''trim'', Str ''right'')]" "[]"] by (simp add: lookup_def)
  moreover have "trim_of [(''trim'', Str ''all'')] = Bool True"
    using trim_of_cases [of "[(''trim'', Str ''all'')]" "[]"] by (simp add: lookup_def)
  moreover have "trim_of [] = Bool True"
    using trim_of_cases [of "[]" "[]"] by simp
  moreover have "map_of (parserOptions [(''trim'', Str ''none'')] []) ''trim'' = Some (Value (Bool False))
     \<and> map_of (stringifyOptions [(''trim'', Str ''none'')] []) ''trim'' = Some (Value (Bool False))"
    using trim_of_cases [of "[(''trim'', Str ''none'')]" "[]"] none by simp
  ultimately show ?thesis by simp
qed

text \<open>
  C9: for every options object, the pad that \<open>execute\<close> computes and passes on to
  \<open>stringify\<close> is the configured \<open>pad\<close> when that is truthy, and one space when the
  option is absent or the empty string; it is never the empty string.
\<close>

theorem pad_of_cases:
  "(truthy (lookup options ''pad'') \<longrightarrow> pad_of options = lookup options ''pad'')
   \<and> (map_of options ''pad'' = None \<or> lookup options ''pad'' = Str []
        \<longrightarrow> pad_of options = Str '' '')
   \<and> pad_of options \<noteq> Str []
   \<and> map_of (stringifyOptions options schema) ''pad'' = Some (Value (pad_of options))"
proof -
  have "map_of (stringifyOptions options schema) ''pad'' = Some (Value (pad_of options))"
    by (simp add: stringifyOptions_def update_conv')
  moreover have "pad_of options \<noteq> Str []"
    by (auto simp: pad_of_def)
  moreover have "map_of options ''pad'' = None \<or> lookup options ''pad'' = Str []
        \<longrightarrow> pad_of options = Str '' ''"
    by (auto simp: pad_of_def lookup_def)
  ultimately show ?thesis
    by (simp add: pad_of_def)
qed

text \<open>C9, a witness: the options \<open>{pad: '*'}\<close>, \<open>{}\<close> and \<open>{pad: ''}\<close>.\<close>

theorem pad_of_cases_witness:
  "truthy (lookup [(''pad'', Str ''*'')] ''pad'')
   \<and> pad_of [(''pad'', Str ''*'')] = Str ''*''
   \<and> map_of ([] :: (string \<times> val) list) ''pad'' = None
   \<and> pad_of [] = Str '' ''
   \<and> lookup [(''pad'', Str '''')] ''pad'' = Str ''''
   \<and> pad_of [(''pad'', Str '''')] = Str '' ''
   \<and> map_of (stringifyOptions [(''pad'', Str '''')] []) ''pad'' = Some (Value (Str '' ''))"
proof -
  have t: "truthy (lookup [(''pad'', Str ''*'')] ''pad'')"
    by (simp add: lookup_def)
  have "pad_of [(''pad'', Str ''*'')] = Str ''*''"
    using pad_of_cases [of "[(''pad'', Str ''*'')]" "[]"] t by (simp add: lookup_def)
  moreover have "pad_of [] = Str '' ''"
    using pad_of_cases [of "[]" "[]"] by simp
  moreover have e: "lookup [(''pad'', Str '''')] ''pad'' = Str ''''"
    by (simp add: lookup_def)
  moreover have p: "pad_of [(''pad'', Str '''')] = Str '' ''"
    using pad_of_cases [of "[(''pad'', Str '''')]" "[]"] e by simp
  moreover have "map_of (stringifyOptions [(''pad'', Str '''')] []) ''pad'' = Some (Value (Str '' ''))"
    using pad_of_cases [of "[(''pad'', Str '''')]" "[]"] p by simp
  ultimately show ?thesis
    using t by simp
qed

section \<open>A configuration without fields\<close>

text \<open>
  C10: for every operation, when the field configuration is \<open>null\<close> or \<open>undefined\<close> (or
  any other falsy value), or is an object that has no \<open>field\<close> entry (or a falsy one:
  \<open>undefined\<close>, \<open>null\<close>, \<open>false\<close>, \<open>0\<close>, \<open>NaN\<close>, \<open>''\<close>), \<open>getFields\<close> raises no error
  and returns the empty schema.
\<close>

theorem getFields_degenerate_config:
  assumes "fieldConfig = Null \<or> fieldConfig = Undefined \<or> \<not> truthy fieldConfig
           \<or> (\<exists>kvs. fieldConfig = Object kvs \<and>
                 (map_of kvs ''field'' = None \<or> \<not> truthy (lookup kvs ''field'')))"
  shows "getFields operation fieldConfig = Inr []"
  using assms by (auto simp: getFields_def js_or_def lookup_def)

text \<open>C10, a witness: \<open>null\<close>, \<open>undefined\<close>, \<open>{}\<close> and \<open>{field: null}\<close>.\<close>

theorem getFields_degenerate_config_witness:
  "getFields ''fromFile'' Null = Inr []
   \<and> getFields ''toFile'' Undefined = Inr []
   \<and> map_of ([] :: (string \<times> val) list) ''field'' = None
   \<and> getFields ''fromFile'' (Object []) = Inr []
   \<and> \<not> truthy (lookup [(''field'', Null)] ''field'')
   \<and> getFields ''toFile'' (Object [(''field'', Null)]) = Inr []"
proof -
  have "getFields ''fromFile'' Null = Inr []"
    using getFields_degenerate_config [of Null "''fromFile''"] by simp
  moreover have "getFields ''toFile'' Undefined = Inr []"
    using getFields_degenerate_config [of Undefined "''toFile''"] by simp
  moreover have "getFields ''fromFile'' (Object []) = Inr []"
    using getFields_degenerate_config [of "Object []" "''fromFile''"] by simp
  moreover have n: "\<not> truthy (lookup [(''field'', Null)] ''field'')"
    by (simp add: lookup_def)
  moreover have "getFields ''toFile'' (Object [(''field'', Null)]) = Inr []"
    using getFields_degenerate_config [of "Object [(''field'', Null)]" "''toFile''"] n by simp
  ultimately show ?thesis by simp
qed

end
